theory Spec2Isabelle
  imports Main "HOL-Library.Log_Nat"
begin

section \<open>JavaScript values and strings\<close>

text \<open>
  The handlers of the download service read the fields \<open>url\<close> and \<open>type\<close> of a JSON request
  body, test them with \<open>!\<close>, compare them with \<open>===\<close> and splice them into template
  literals. A field is modelled as absent (\<open>undefined\<close>), \<open>null\<close>, a boolean or a string;
  numbers, arrays and objects in a request body are outside the model.
\<close>

datatype jsval = JUndefined | JNull | JBool bool | JStr string

text \<open>\<open>!v\<close> is \<open>\<not> truthy v\<close>.\<close>

fun truthy :: "jsval \<Rightarrow> bool" where
  "truthy JUndefined = False"
| "truthy JNull = False"
| "truthy (JBool b) = b"
| "truthy (JStr s) = (s \<noteq> [])"

text \<open>The string a template literal \<open>`${v}`\<close> splices in.\<close>

fun to_str :: "jsval \<Rightarrow> string" where
  "to_str JUndefined = ''undefined''"
| "to_str JNull = ''null''"
| "to_str (JBool b) = (if b then ''true'' else ''false'')"
| "to_str (JStr s) = s"

text \<open>
  Decimal rendering of an integer, as \<open>String(n)\<close> and \<open>`${n}`\<close> give it for an integer
  of magnitude up to \<open>2^53\<close>, the range in which every integer is a double of its own
  (\<open>Date.now()\<close> is in it).
\<close>

definition digit_char :: "nat \<Rightarrow> char" where
  "digit_char d = ''0123456789'' ! d"

function show_nat :: "nat \<Rightarrow> string" where
  "show_nat n = (if n < 10 then [digit_char n] else show_nat (n div 10) @ [digit_char (n mod 10)])"
  by pat_completeness auto
termination
  by (relation "measure id") auto

declare show_nat.simps [simp del]

definition show_int :: "int \<Rightarrow> string" where
  "show_int k = (if k < 0 then CHR ''-'' # show_nat (nat (- k)) else show_nat (nat k))"

text \<open>\<open>s.padStart(n, c)\<close> for a one-character pad string.\<close>

definition padStart :: "nat \<Rightarrow> char \<Rightarrow> string \<Rightarrow> string" where
  "padStart n c s = replicate (n - length s) c @ s"

section \<open>JavaScript numbers\<close>

text \<open>
  A JavaScript number is an IEEE double. A finite double is modelled by its value, a
  rational; \<open>NaN\<close> and the two infinities are values of their own (the sign of zero is not
  modelled: no operation below tells \<open>-0\<close> from \<open>0\<close>). Arithmetic is exact arithmetic
  followed by rounding to the nearest double, ties to even.

  \<open>expo q\<close> is the binary exponent of a positive rational: \<open>2 powi expo q \<le> q\<close> and
  \<open>q < 2 powi (expo q + 1)\<close>. \<open>ulp q\<close> is the spacing of the doubles around \<open>q\<close>: 52 bits
  below the exponent, and never finer than the spacing of the subnormal numbers.
\<close>

datatype jsnumber = NaN | PosInf | NegInf | Num rat

definition expo :: "rat \<Rightarrow> int" where
  "expo q = (let (a, b) = quotient_of q; c = bitlen a - bitlen b
             in if 2 powi c \<le> q then c else c - 1)"

definition ulp :: "rat \<Rightarrow> rat" where
  "ulp q = 2 powi (max (expo q) (- 1022) - 52)"

definition round_ties_even :: "rat \<Rightarrow> int" where
  "round_ties_even y =
     (let f = \<lfloor>y\<rfloor>; r = y - of_int f
      in if r < 1 / 2 then f else if 1 / 2 < r then f + 1 else if even f then f else f + 1)"

text \<open>
  Rounding to the nearest double. Overflow to infinity is left out: the only results
  rounded below are quotients of a double by 60 or 3600.
\<close>

definition round_double :: "rat \<Rightarrow> rat" where
  "round_double q =
     (if q = 0 then 0
      else if 0 < q then of_int (round_ties_even (q / ulp q)) * ulp q
      else - (of_int (round_ties_even (- q / ulp (- q))) * ulp (- q)))"

definition is_double :: "rat \<Rightarrow> bool" where
  "is_double q = (round_double q = q \<and> \<bar>q\<bar> < 2 ^ 1024)"

text \<open>
  The operations the duration helpers use, for a divisor that is a positive literal:
  \<open>x / d\<close> is rounded, \<open>x % d\<close> takes the sign of the dividend and is exact, and so is
  \<open>Math.floor\<close>. \<open>h > 0\<close> is false for \<open>NaN\<close>.
\<close>

fun js_div :: "jsnumber \<Rightarrow> rat \<Rightarrow> jsnumber" where
  "js_div (Num x) d = Num (round_double (x / d))"
| "js_div v d = v"

definition js_trunc :: "rat \<Rightarrow> int" where
  "js_trunc y = (if 0 \<le> y then \<lfloor>y\<rfloor> else \<lceil>y\<rceil>)"

fun js_rem :: "jsnumber \<Rightarrow> rat \<Rightarrow> jsnumber" where
  "js_rem (Num x) d = Num (x - d * of_int (js_trunc (x / d)))"
| "js_rem v d = NaN"

fun Math_floor :: "jsnumber \<Rightarrow> jsnumber" where
  "Math_floor (Num x) = Num (of_int \<lfloor>x\<rfloor>)"
| "Math_floor v = v"

fun js_positive :: "jsnumber \<Rightarrow> bool" where
  "js_positive (Num x) = (0 < x)"
| "js_positive PosInf = True"
| "js_positive v = False"

text \<open>
  \<open>String(x)\<close>, \<open>x.toString()\<close> and \<open>`${x}`\<close>. How the language prints a finite number
  is the parameter \<open>S\<close> of the model; what the properties below need of it is that an
  integer of magnitude up to \<open>2^53\<close> is printed in decimal.
\<close>

fun js_String :: "(rat \<Rightarrow> string) \<Rightarrow> jsnumber \<Rightarrow> string" where
  "js_String S (Num x) = S x"
| "js_String S NaN = ''NaN''"
| "js_String S PosInf = ''Infinity''"
| "js_String S NegInf = ''-Infinity''"

text \<open>\<open>a || b\<close> on numbers: \<open>NaN\<close> and zero are falsy. A missing number is \<open>NaN\<close> here.\<close>

fun falsy :: "jsnumber \<Rightarrow> bool" where
  "falsy NaN = True"
| "falsy (Num x) = (x = 0)"
| "falsy v = False"

definition js_or :: "jsnumber \<Rightarrow> jsnumber \<Rightarrow> jsnumber" where
  "js_or a b = (if falsy a then b else a)"

section \<open>Duration labels\<close>

text \<open>
  \<open>secondsToHms\<close> first evaluates \<open>Number(seconds) || 0\<close>; the model takes the value of
  \<open>Number(seconds)\<close> as its argument, so a non-numeric argument is \<open>NaN\<close>. \<open>hms\<close> are
  its three constants \<open>h\<close>, \<open>m\<close> and \<open>s\<close>.
\<close>

definition hms :: "jsnumber \<Rightarrow> jsnumber \<times> jsnumber \<times> jsnumber" where
  "hms seconds =
     (Math_floor (js_div seconds 3600),
      Math_floor (js_div (js_rem seconds 3600) 60),
      Math_floor (js_rem seconds 60))"

definition secondsToHms :: "(rat \<Rightarrow> string) \<Rightarrow> jsnumber \<Rightarrow> string" where
  "secondsToHms S x =
     (let seconds = js_or x (Num 0);
          (h, m, s) = hms seconds
      in if js_positive h
         then js_String S h @ '':'' @ padStart 2 (CHR ''0'') (js_String S m) @ '':''
                @ padStart 2 (CHR ''0'') (js_String S s)
         else js_String S m @ '':'' @ padStart 2 (CHR ''0'') (js_String S s))"

text \<open>
  The older helper \<open>formatDuration\<close> has no \<open>Number(...) || 0\<close> and no floor on the
  seconds. Its argument is the number that the arithmetic makes of \<open>lengthSeconds\<close>.
\<close>

definition formatDuration :: "(rat \<Rightarrow> string) \<Rightarrow> jsnumber \<Rightarrow> string" where
  "formatDuration S seconds =
     (let hrs = Math_floor (js_div seconds 3600);
          mins = Math_floor (js_div (js_rem seconds 3600) 60);
          secs = js_rem seconds 60
      in if js_positive hrs
         then js_String S hrs @ '':'' @ padStart 2 (CHR ''0'') (js_String S mins) @ '':''
                @ padStart 2 (CHR ''0'') (js_String S secs)
         else js_String S mins @ '':'' @ padStart 2 (CHR ''0'') (js_String S secs))"

text \<open>
  The reading of \<open>h:mm:ss\<close> and \<open>m:ss\<close> that the labels are compared with: a component
  written with exactly two decimal digits. \<open>decimal_str\<close> is a printing of numbers that is
  decimal on the integers, for the example runs.
\<close>

definition two_digits :: "nat \<Rightarrow> string" where
  "two_digits k = [digit_char (k div 10), digit_char (k mod 10)]"

definition decimal_str :: "rat \<Rightarrow> string" where
  "decimal_str q = show_int \<lfloor>q\<rfloor>"

section \<open>Documents, responses and the world\<close>

text \<open>
  What \<open>res.status(n).json(v)\<close> sends: a status code (200 when \<open>res.json\<close> is called
  alone) and a JSON value.
\<close>

datatype json = JsNull | JsBool bool | JsNum nat | JsStr string
  | JsArr "json list" | JsObj "(string \<times> json) list"

record response =
  status :: nat
  body :: json

text \<open>
  A document of the \<open>Download\<close> model. The schema of \<open>src/app.js\<close> has the first seven
  fields after \<open>_id\<close>; the schemas of the two earlier servers add \<open>duration\<close> and
  \<open>thumbnail\<close>. An optional field that is \<open>undefined\<close> or \<open>null\<close> is \<open>None\<close>. Dates are
  milliseconds since the epoch.
\<close>

record download =
  doc_id :: string
  title :: string
  url :: string
  fileName :: string
  fileType :: string
  downloadDate :: nat
  filePath :: string
  fileSize :: nat
  duration :: "string option"
  thumbnail :: "string option"

text \<open>
  The fields \<open>res.json(doc)\<close> serialises: every stored field of the document, with the
  version key \<open>__v\<close> that mongoose adds.
\<close>

definition toJSON :: "download \<Rightarrow> (string \<times> json) list" where
  "toJSON d =
     [(''_id'', JsStr (doc_id d)), (''title'', JsStr (title d)), (''url'', JsStr (url d)),
      (''fileName'', JsStr (fileName d)), (''fileType'', JsStr (fileType d)),
      (''downloadDate'', JsNum (downloadDate d)), (''filePath'', JsStr (filePath d)),
      (''fileSize'', JsNum (fileSize d))]
     @ (case duration d of None \<Rightarrow> [] | Some x \<Rightarrow> [(''duration'', JsStr x)])
     @ (case thumbnail d of None \<Rightarrow> [] | Some x \<Rightarrow> [(''thumbnail'', JsStr x)])
     @ [(''__v'', JsNum 0)]"

text \<open>The projection \<open>.select('-f')\<close>: the field \<open>f\<close> is left out of each document.\<close>

definition select_minus :: "string \<Rightarrow> (string \<times> json) list \<Rightarrow> (string \<times> json) list" where
  "select_minus f kvs = filter (\<lambda>kv. fst kv \<noteq> f) kvs"

text \<open>\<open>.sort({ downloadDate: -1 })\<close>: newest first.\<close>

definition sort_newest_first :: "download list \<Rightarrow> download list" where
  "sort_newest_first ds = rev (sort_key downloadDate ds)"

text \<open>
  The state the handlers share: the download directory (a path has a file of some size, or
  none), the \<open>downloads\<close> collection, and the commands handed to
  \<open>child_process.exec\<close>, in order. One handler invocation is one step on this state, from
  the request to the response; interleavings of handlers are outside the model.
\<close>

type_synonym filesystem = "string \<rightharpoonup> nat"

record world =
  fs :: filesystem
  db :: "download list"
  execLog :: "string list"

text \<open>\<open>path.join(dir, name)\<close> for a name without separators or dot segments.\<close>

definition path_join :: "string \<Rightarrow> string \<Rightarrow> string" where
  "path_join dir name = dir @ ''/'' @ name"

text \<open>
  Schema validation on \<open>save()\<close>. \<open>src/app.js\<close> only restricts \<open>fileType\<close> to the
  enumeration; the earlier schemas also require five string fields, and a required string
  may not be empty.
\<close>

definition validate_app :: "download \<Rightarrow> bool" where
  "validate_app d = (fileType d \<in> {''audio'', ''video''})"

definition validate_required :: "download \<Rightarrow> bool" where
  "validate_required d =
     (title d \<noteq> [] \<and> url d \<noteq> [] \<and> fileName d \<noteq> [] \<and> filePath d \<noteq> []
      \<and> fileType d \<in> {''audio'', ''video''})"

text \<open>
  \<open>doc.save()\<close>: the document is inserted when it passes validation, the store accepts the
  write (\<open>ok\<close>) and its \<open>_id\<close> is not taken (the collection's primary index is unique);
  otherwise the promise rejects, which is \<open>None\<close>.
\<close>

definition save :: "(download \<Rightarrow> bool) \<Rightarrow> bool \<Rightarrow> download \<Rightarrow> world \<Rightarrow> world option" where
  "save valid ok d w =
     (if valid d \<and> ok \<and> doc_id d \<notin> set (map doc_id (db w))
      then Some (w\<lparr>db := db w @ [d]\<rparr>) else None)"

text \<open>\<open>Download.findById(id)\<close> on a reachable store, and the removal of one document.\<close>

definition findById :: "string \<Rightarrow> download list \<Rightarrow> download option" where
  "findById i ds = find (\<lambda>d. doc_id d = i) ds"

fun findByIdAndDelete :: "string \<Rightarrow> download list \<Rightarrow> download list" where
  "findByIdAndDelete i [] = []"
| "findByIdAndDelete i (d # ds) = (if doc_id d = i then ds else d # findByIdAndDelete i ds)"

section \<open>The handlers of \<open>src/app.js\<close>\<close>

text \<open>The request body \<open>{ url, type }\<close>.\<close>

record request =
  req_url :: jsval
  req_type :: jsval

text \<open>
  What the callback of \<open>exec(cmd, callback)\<close> receives (whether \<open>error\<close> is set, and the
  two output streams), with the download directory as the command left it. The command
  itself is the external downloader: the handler is given it as the function \<open>ytdlp\<close> of the
  command line and the directory before the run.
\<close>

record exec_result =
  exec_error :: bool
  exec_stdout :: string
  exec_stderr :: string
  exec_fs :: filesystem

text \<open>
  Everything else a run of \<open>POST /download\<close> reads from outside. All three servers read
  \<open>__dirname\<close>, \<open>Date.now()\<close> when the file name is built, the identifier and the default
  \<open>downloadDate\<close> that \<open>new Download(...)\<close> gives the document, and whether the store accepts
  the write; \<open>src/app.js\<close> also reads the port, as the link prints it, and runs the command.
\<close>

record base_env =
  dirname :: string
  now :: nat
  new_id :: string
  created :: nat
  save_ok :: bool

record env = base_env +
  PORT :: string
  ytdlp :: "string \<Rightarrow> filesystem \<Rightarrow> exec_result"

definition DOWNLOAD_DIR :: "'a base_env_scheme \<Rightarrow> string" where
  "DOWNLOAD_DIR e = path_join (dirname e) ''downloads''"

definition app_ext :: "jsval \<Rightarrow> string" where
  "app_ext type = (if type = JStr ''audio'' then ''mp3'' else ''mp4'')"

definition app_filename :: "jsval \<Rightarrow> nat \<Rightarrow> string" where
  "app_filename type t = ''video_'' @ show_nat t @ ''.'' @ app_ext type"

definition app_cmd :: "jsval \<Rightarrow> string \<Rightarrow> jsval \<Rightarrow> string" where
  "app_cmd type filepath u =
     (if type = JStr ''audio''
      then ''yt-dlp -x --audio-format mp3 -o '' @ [CHR 0x22] @ filepath @ [CHR 0x22] @ '' ''
             @ [CHR 0x22] @ to_str u @ [CHR 0x22]
      else ''yt-dlp -f best -o '' @ [CHR 0x22] @ filepath @ [CHR 0x22] @ '' ''
             @ [CHR 0x22] @ to_str u @ [CHR 0x22])"

definition app_filepath :: "env \<Rightarrow> request \<Rightarrow> string" where
  "app_filepath e rq = path_join (DOWNLOAD_DIR e) (app_filename (req_type rq) (now e))"

text \<open>The run of the command that \<open>exec\<close> starts for a request.\<close>

definition app_exec :: "env \<Rightarrow> request \<Rightarrow> world \<Rightarrow> exec_result" where
  "app_exec e rq w = ytdlp e (app_cmd (req_type rq) (app_filepath e rq) (req_url rq)) (fs w)"

definition app_invalid :: response where
  "app_invalid = \<lparr>status = 400, body = JsObj [(''error'', JsStr ''url and type required'')]\<rparr>"

definition app_download_failed :: "string \<Rightarrow> response" where
  "app_download_failed details =
     \<lparr>status = 500,
      body = JsObj [(''error'', JsStr ''Download failed''), (''details'', JsStr details)]\<rparr>"

definition app_db_failed :: response where
  "app_db_failed =
     \<lparr>status = 500, body = JsObj [(''error'', JsStr ''File saved but DB insert failed'')]\<rparr>"

definition app_success :: "env \<Rightarrow> jsval \<Rightarrow> string \<Rightarrow> response" where
  "app_success e type filename =
     \<lparr>status = 200,
      body = JsObj [(''message'', JsStr (to_str type @ '' downloaded successfully'')),
                    (''link'', JsStr (''http://localhost:'' @ PORT e @ ''/downloads/'' @ filename))]\<rparr>"

text \<open>
  \<open>POST /download\<close>. The handler and the callback it hands to \<open>exec\<close> are one step: guard,
  file name, command, the run of the command (logged), then either the error branch of
  the callback or its \<open>try\<close> block, where \<open>fs.statSync\<close> throws on a missing file and
  \<open>save()\<close> may reject; both land in the same \<open>catch\<close>. The outer \<open>try\<close> only guards the
  statements up to the call of \<open>exec\<close>, none of which throws on the values of the model.
\<close>

definition app_post_download :: "env \<Rightarrow> request \<Rightarrow> world \<Rightarrow> response \<times> world" where
  "app_post_download e rq w =
     (let u = req_url rq; type = req_type rq in
      if \<not> truthy u \<or> \<not> truthy type then (app_invalid, w)
      else
        let filename = app_filename type (now e);
            filepath = app_filepath e rq;
            cmd = app_cmd type filepath u;
            r = app_exec e rq w;
            w1 = w\<lparr>fs := exec_fs r, execLog := execLog w @ [cmd]\<rparr>
        in if exec_error r then (app_download_failed (exec_stderr r), w1)
           else (case fs w1 filepath of
                   None \<Rightarrow> (app_db_failed, w1)
                 | Some stats_size \<Rightarrow>
                     let newDownload =
                           \<lparr>doc_id = new_id e, title = filename, url = to_str u,
                            fileName = filename, fileType = to_str type,
                            downloadDate = created e, filePath = filepath, fileSize = stats_size,
                            duration = None, thumbnail = None\<rparr>
                     in (case save validate_app (save_ok e) newDownload w1 of
                           None \<Rightarrow> (app_db_failed, w1)
                         | Some w2 \<Rightarrow> (app_success e type filename, w2))))"

text \<open>
  \<open>GET /downloads-list\<close>: the query either rejects (\<open>find_ok\<close> is false) or yields every
  document, newest first, and \<open>res.json\<close> serialises them whole.
\<close>

definition db_error :: response where
  "db_error = \<lparr>status = 500, body = JsObj [(''error'', JsStr ''Database error'')]\<rparr>"

definition app_get_downloads_list :: "bool \<Rightarrow> world \<Rightarrow> response" where
  "app_get_downloads_list find_ok w =
     (if find_ok
      then \<lparr>status = 200, body = JsArr (map (\<lambda>d. JsObj (toJSON d)) (sort_newest_first (db w)))\<rparr>
      else db_error)"

section \<open>The handlers of the play-dl server (\<open>src/unnamed/part_000\<close>)\<close>

text \<open>
  Title sanitising: \<open>rawTitle.replace(/[^\w\s-]/g, '').trim()\<close>. A string is a list of code
  units below 256; among them \<open>\w\<close> is a letter, a digit or the underscore, and \<open>\s\<close> (and
  what \<open>trim\<close> strips) is one of the code units 9 to 13, 32 and 160.
\<close>

definition is_word_char :: "char \<Rightarrow> bool" where
  "is_word_char c =
     (let n = (of_char c :: nat)
      in (48 \<le> n \<and> n \<le> 57) \<or> (65 \<le> n \<and> n \<le> 90) \<or> n = 95 \<or> (97 \<le> n \<and> n \<le> 122))"

definition is_space_char :: "char \<Rightarrow> bool" where
  "is_space_char c = (let n = (of_char c :: nat) in (9 \<le> n \<and> n \<le> 13) \<or> n = 32 \<or> n = 160)"

definition trim :: "string \<Rightarrow> string" where
  "trim s = rev (dropWhile is_space_char (rev (dropWhile is_space_char s)))"

definition sanitize :: "string \<Rightarrow> string" where
  "sanitize s = trim (filter (\<lambda>c. is_word_char c \<or> is_space_char c \<or> c = CHR ''-'') s)"

text \<open>
  The part of \<open>video_details\<close> the handler reads; \<open>vd_thumbnails\<close> lists the \<open>url\<close> of each
  thumbnail. A missing title, raw duration or thumbnail url is \<open>None\<close>.
\<close>

record video_details =
  vd_title :: "string option"
  vd_durationInSec :: jsnumber
  vd_durationRaw :: "string option"
  vd_thumbnails :: "string option list"

text \<open>\<open>x || fallback\<close> on an optional string: a missing or empty string gives the fallback.\<close>

fun or_else :: "string option \<Rightarrow> 'a \<Rightarrow> (string \<Rightarrow> 'a) \<Rightarrow> 'a" where
  "or_else None fallback f = fallback"
| "or_else (Some x) fallback f = (if x = [] then fallback else f x)"

text \<open>\<open>thumbnails?.[0]?.url || null\<close>.\<close>

fun first_thumbnail :: "string option list \<Rightarrow> string option" where
  "first_thumbnail [] = None"
| "first_thumbnail (t # ts) = or_else t None Some"

text \<open>
  Piping the media stream into \<open>fs.createWriteStream(filePath)\<close> ends in one event: the write
  stream finishes, the write stream fails, or the source stream fails. The library
  decides which, and what it leaves in the directory: the handler is given it as the
  function \<open>pipe\<close> of the destination path and the directory before. \<open>num_str\<close> is how
  the language prints a finite number.
\<close>

datatype pipe_event = Finish | WriteError string | StreamError string

record stream_env = base_env +
  pipe :: "string \<Rightarrow> filesystem \<Rightarrow> pipe_event \<times> filesystem"
  num_str :: "rat \<Rightarrow> string"

record play_env = stream_env +
  video_info :: "string + video_details"
  stream_ok :: bool
  stream_from_info_ok :: bool

definition downloadsDir :: "'a base_env_scheme \<Rightarrow> string" where
  "downloadsDir e = path_join (dirname e) ''downloads''"

definition fileExt :: "jsval \<Rightarrow> string" where
  "fileExt type = (if type = JStr ''audio'' then ''mp3'' else ''mp4'')"

definition fileName_of :: "string \<Rightarrow> nat \<Rightarrow> jsval \<Rightarrow> string" where
  "fileName_of ttl t type = ttl @ ''_'' @ show_nat t @ ''.'' @ fileExt type"

text \<open>
  \<open>rawTitle = vd.title || 'video'\<close>, the sanitised \<open>title\<close> with its own fallback, and the
  destination path built from it.
\<close>

definition rawTitle :: "'a video_details_scheme \<Rightarrow> string" where
  "rawTitle vd = or_else (vd_title vd) ''video'' id"

definition safe_title :: "'a video_details_scheme \<Rightarrow> string" where
  "safe_title vd = (let t = sanitize (rawTitle vd) in if t = [] then ''video'' else t)"

definition part0_filePath :: "play_env \<Rightarrow> request \<Rightarrow> video_details \<Rightarrow> string" where
  "part0_filePath e rq vd =
     path_join (downloadsDir e) (fileName_of (safe_title vd) (now e) (req_type rq))"

definition part0_db_failed :: response where
  "part0_db_failed =
     \<lparr>status = 500, body = JsObj [(''error'', JsStr ''Download complete but DB save failed'')]\<rparr>"

text \<open>\<open>if (fs.existsSync(p)) fs.unlinkSync(p)\<close>, with an unlink that succeeds.\<close>

definition cleanup :: "string \<Rightarrow> filesystem \<Rightarrow> filesystem" where
  "cleanup p f = (if f p \<noteq> None then f(p := None) else f)"

definition error_response :: "nat \<Rightarrow> string \<Rightarrow> response" where
  "error_response code msg = \<lparr>status = code, body = JsObj [(''error'', JsStr msg)]\<rparr>"

text \<open>
  \<open>POST /download\<close>. A handler without a response (\<open>None\<close>) is one whose promise rejects or
  whose event has no listener: this server listens for the write stream's \<open>error\<close> but not
  for the source stream's. A resolved \<open>video_info\<close> carries its \<open>video_details\<close>, and a
  resolved stream call an object, so that the branch \<open>if (!stream)\<close> is never taken and is
  left out.
\<close>

definition part0_post_download ::
  "play_env \<Rightarrow> request \<Rightarrow> world \<Rightarrow> response option \<times> world" where
  "part0_post_download e rq w =
     (let u = req_url rq; type = req_type rq in
      if \<not> truthy u \<or> \<not> truthy type then (Some (error_response 400 ''Missing url or type''), w)
      else
        (case video_info e of
           Inl msg \<Rightarrow> (Some (error_response 400 ''Unable to fetch video info. Check URL.''), w)
         | Inr vd \<Rightarrow>
             let durationSec = js_or (vd_durationInSec vd) (Num 0);
                 durationRaw = or_else (vd_durationRaw vd) None Some;
                 thumb = first_thumbnail (vd_thumbnails vd);
                 fname = fileName_of (safe_title vd) (now e) type;
                 fpath = part0_filePath e rq vd
             in if \<not> stream_ok e \<and> \<not> stream_from_info_ok e
                then (Some (error_response 500 ''Failed to get media stream''), w)
                else
                  (case pipe e fpath (fs w) of
                     (Finish, f1) \<Rightarrow>
                       let w1 = w\<lparr>fs := f1\<rparr> in
                       (case f1 fpath of
                          None \<Rightarrow> (Some part0_db_failed, w1)
                        | Some stats_size \<Rightarrow>
                            let download =
                                  \<lparr>doc_id = new_id e, title = rawTitle vd, url = to_str u,
                                   fileName = fname, fileType = to_str type,
                                   downloadDate = created e, filePath = fpath,
                                   fileSize = stats_size,
                                   duration =
                                     Some (case durationRaw of
                                             Some raw \<Rightarrow> raw
                                           | None \<Rightarrow> secondsToHms (num_str e) durationSec),
                                   thumbnail = thumb\<rparr>
                            in (case save validate_required (save_ok e) download w1 of
                                  None \<Rightarrow> (Some part0_db_failed, w1)
                                | Some w2 \<Rightarrow>
                                    (Some \<lparr>status = 200,
                                           body = JsObj
                                             [(''success'', JsBool True),
                                              (''message'',
                                               JsStr (to_str type @ '' downloaded successfully'')),
                                              (''fileName'', JsStr fname),
                                              (''title'', JsStr (rawTitle vd))]\<rparr>, w2)))
                   | (WriteError msg, f1) \<Rightarrow>
                       (Some (error_response 500 ''File write failed''),
                        w\<lparr>fs := cleanup fpath f1\<rparr>)
                   | (StreamError msg, f1) \<Rightarrow> (None, w\<lparr>fs := f1\<rparr>))))"

text \<open>
  \<open>GET /downloads\<close> and \<open>GET /download/:id\<close>. Neither has a \<open>try\<close>: a query that rejects
  (\<open>find_ok\<close> is false; for \<open>findById\<close> that includes an id that is no ObjectId) leaves the
  request without a response.
\<close>

definition part0_get_downloads :: "bool \<Rightarrow> world \<Rightarrow> response option" where
  "part0_get_downloads find_ok w =
     (if find_ok
      then Some \<lparr>status = 200,
                 body = JsArr (map (\<lambda>d. JsObj (select_minus ''filePath'' (toJSON d)))
                                   (sort_newest_first (db w)))\<rparr>
      else None)"

definition not_found :: response where
  "not_found = error_response 404 ''Download not found''"

definition part0_get_download :: "bool \<Rightarrow> string \<Rightarrow> world \<Rightarrow> response option" where
  "part0_get_download find_ok i w =
     (if find_ok
      then (case findById i (db w) of
              None \<Rightarrow> Some not_found
            | Some download \<Rightarrow> Some \<lparr>status = 200, body = JsObj (toJSON download)\<rparr>)
      else None)"

text \<open>
  What a run of \<open>DELETE /download/:id\<close> meets outside: whether the lookup resolves (it
  rejects when the store cannot be reached, and when the id of the request is not the text
  of an ObjectId), whether \<open>fs.unlinkSync\<close> returns (it throws when the file cannot be
  removed), and whether the removal of the document resolves.
\<close>

record delete_env =
  findById_ok :: bool
  unlink_ok :: bool
  findByIdAndDelete_ok :: bool

definition delete_success :: response where
  "delete_success =
     \<lparr>status = 200,
      body = JsObj [(''success'', JsBool True),
                    (''message'', JsStr ''Download deleted successfully'')]\<rparr>"

text \<open>
  The body shared by both \<open>DELETE\<close> handlers, statement by statement: \<open>Inl\<close> is a thrown
  exception or a rejected promise, with the state at that point.
\<close>

definition delete_body :: "delete_env \<Rightarrow> string \<Rightarrow> world \<Rightarrow> (world + response \<times> world)" where
  "delete_body e i w =
     (if \<not> findById_ok e then Inl w
      else (case findById i (db w) of
              None \<Rightarrow> Inr (not_found, w)
            | Some download \<Rightarrow>
                if fs w (filePath download) \<noteq> None \<and> \<not> unlink_ok e then Inl w
                else
                  let w1 = (if fs w (filePath download) \<noteq> None
                            then w\<lparr>fs := (fs w)(filePath download := None)\<rparr> else w)
                  in if \<not> findByIdAndDelete_ok e then Inl w1
                     else Inr (delete_success, w1\<lparr>db := findByIdAndDelete i (db w1)\<rparr>)))"

text \<open>In this server nothing catches: an exception leaves the request without a response.\<close>

definition part0_delete_download ::
  "delete_env \<Rightarrow> string \<Rightarrow> world \<Rightarrow> response option \<times> world" where
  "part0_delete_download e i w =
     (case delete_body e i w of Inl w' \<Rightarrow> (None, w') | Inr (r, w') \<Rightarrow> (Some r, w'))"

section \<open>The handlers of the ytdl-core server (\<open>src/unnamed/part_001\<close>)\<close>

text \<open>
  The part of \<open>info.videoDetails\<close> the handler reads: a title, \<open>lengthSeconds\<close> as the
  number its arithmetic sees, and the thumbnails' urls.
\<close>

record videoDetails =
  info_title :: string
  lengthSeconds :: jsnumber
  info_thumbnails :: "string option list"

record ytdl_env = stream_env +
  validateURL :: "jsval \<Rightarrow> bool"
  getInfo :: "string + videoDetails"

definition part1_filePath :: "ytdl_env \<Rightarrow> request \<Rightarrow> videoDetails \<Rightarrow> string" where
  "part1_filePath e rq info =
     path_join (downloadsDir e) (fileName_of (sanitize (info_title info)) (now e) (req_type rq))"

text \<open>
  \<open>thumbnails[0]?.url\<close>, without the \<open>|| null\<close> of the later server: an empty url is kept.
\<close>

fun thumbnail_url :: "string option list \<Rightarrow> string option" where
  "thumbnail_url [] = None"
| "thumbnail_url (t # ts) = t"

text \<open>
  \<open>POST /download\<close>. Every exit answers: a rejected \<open>getInfo\<close> lands in the outer \<open>catch\<close>,
  and both streams have an \<open>error\<close> listener that removes the partial file.
\<close>

definition part1_post_download ::
  "ytdl_env \<Rightarrow> request \<Rightarrow> world \<Rightarrow> response \<times> world" where
  "part1_post_download e rq w =
     (let u = req_url rq; type = req_type rq in
      if \<not> validateURL e u then (error_response 400 ''Invalid YouTube URL'', w)
      else
        (case getInfo e of
           Inl msg \<Rightarrow> (error_response 500 (''Server error: '' @ msg), w)
         | Inr info \<Rightarrow>
             let fname = fileName_of (sanitize (info_title info)) (now e) type;
                 fpath = part1_filePath e rq info
             in (case pipe e fpath (fs w) of
                   (Finish, f1) \<Rightarrow>
                     let w1 = w\<lparr>fs := f1\<rparr> in
                     (case f1 fpath of
                        None \<Rightarrow>
                          (error_response 500 ''Download completed but database save failed'', w1)
                      | Some stats_size \<Rightarrow>
                          let download =
                                \<lparr>doc_id = new_id e, title = info_title info, url = to_str u,
                                 fileName = fname, fileType = to_str type,
                                 downloadDate = created e, filePath = fpath,
                                 fileSize = stats_size,
                                 duration =
                                   Some (formatDuration (num_str e) (lengthSeconds info)),
                                 thumbnail = thumbnail_url (info_thumbnails info)\<rparr>
                          in (case save validate_required (save_ok e) download w1 of
                                None \<Rightarrow>
                                  (error_response 500
                                     ''Download completed but database save failed'', w1)
                              | Some w2 \<Rightarrow>
                                  (\<lparr>status = 200,
                                    body = JsObj
                                      [(''success'', JsBool True),
                                       (''message'',
                                        JsStr ((if type = JStr ''audio'' then ''Audio'' else ''Video'')
                                               @ '' downloaded successfully!'')),
                                       (''fileName'', JsStr fname),
                                       (''title'', JsStr (info_title info))]\<rparr>, w2)))
                 | (StreamError msg, f1) \<Rightarrow>
                     (error_response 500 (''Download failed: '' @ msg), w\<lparr>fs := cleanup fpath f1\<rparr>)
                 | (WriteError msg, f1) \<Rightarrow>
                     (error_response 500 (''File write failed: '' @ msg),
                      w\<lparr>fs := cleanup fpath f1\<rparr>))))"

text \<open>\<open>GET /downloads\<close>, \<open>GET /download/:id\<close> and \<open>DELETE /download/:id\<close>, each in a \<open>try\<close>.\<close>

definition part1_get_downloads :: "bool \<Rightarrow> world \<Rightarrow> response" where
  "part1_get_downloads find_ok w =
     (if find_ok
      then \<lparr>status = 200,
            body = JsArr (map (\<lambda>d. JsObj (select_minus ''filePath'' (toJSON d)))
                              (sort_newest_first (db w)))\<rparr>
      else db_error)"

definition part1_get_download :: "bool \<Rightarrow> string \<Rightarrow> world \<Rightarrow> response" where
  "part1_get_download find_ok i w =
     (if find_ok
      then (case findById i (db w) of
              None \<Rightarrow> not_found
            | Some download \<Rightarrow> \<lparr>status = 200, body = JsObj (toJSON download)\<rparr>)
      else db_error)"

definition delete_failed :: response where
  "delete_failed = error_response 500 ''Delete failed''"

definition part1_delete_download :: "delete_env \<Rightarrow> string \<Rightarrow> world \<Rightarrow> response \<times> world" where
  "part1_delete_download e i w =
     (case delete_body e i w of Inl w' \<Rightarrow> (delete_failed, w') | Inr (r, w') \<Rightarrow> (r, w'))"

section \<open>The play-dl snapshot (\<open>src/.history/app_20250824145517.js\<close>)\<close>






section \<open>Example runs\<close>

text \<open>
  A stub downloader that writes \<open>n\<close> bytes to the path \<open>p\<close> and prints a title, one that
  writes nothing and still reports success, and one that fails after writing part of
  the file.
\<close>

definition stub_ytdlp :: "string \<Rightarrow> nat \<Rightarrow> string \<Rightarrow> filesystem \<Rightarrow> exec_result" where
  "stub_ytdlp p n cmd f =
     \<lparr>exec_error = False, exec_stdout = ''Test Song'', exec_stderr = [], exec_fs = f(p \<mapsto> n)\<rparr>"

definition silent_ytdlp :: "string \<Rightarrow> filesystem \<Rightarrow> exec_result" where
  "silent_ytdlp cmd f =
     \<lparr>exec_error = False, exec_stdout = ''Test Song'', exec_stderr = [], exec_fs = f\<rparr>"

definition failing_ytdlp :: "string \<Rightarrow> nat \<Rightarrow> string \<Rightarrow> filesystem \<Rightarrow> exec_result" where
  "failing_ytdlp p n cmd f =
     \<lparr>exec_error = True, exec_stdout = [], exec_stderr = ''ERROR: unable to download'',
      exec_fs = f(p \<mapsto> n)\<rparr>"

definition example_path :: string where
  "example_path = ''/srv/app/downloads/video_1700.mp3''"

definition example_env :: env where
  "example_env =
     \<lparr>dirname = ''/srv/app'', now = 1700, new_id = ''66c9e1a0f1a2b3c4d5e6f701'', created = 1705, save_ok = True,
      PORT = ''3000'', ytdlp = stub_ytdlp example_path 1024\<rparr>"

definition example_request :: request where
  "example_request = \<lparr>req_url = JStr ''https://example.com/watch?v=abc'', req_type = JStr ''audio''\<rparr>"

definition empty_world :: world where
  "empty_world = \<lparr>fs = Map.empty, db = [], execLog = []\<rparr>"

text \<open>
  Variations of the example: a kind outside the enumeration, a downloader that fails, one
  that writes nothing, a store that rejects the write, and a second request served within
  the same millisecond.
\<close>

definition bad_kind_request :: request where
  "bad_kind_request = \<lparr>req_url = JStr ''https://example.com/watch?v=abc'', req_type = JStr ''foo''\<rparr>"

definition missing_kind_request :: request where
  "missing_kind_request = \<lparr>req_url = JStr ''https://example.com/watch?v=abc'', req_type = JUndefined\<rparr>"

definition video_env :: env where
  "video_env = example_env\<lparr>ytdlp := stub_ytdlp ''/srv/app/downloads/video_1700.mp4'' 1024\<rparr>"

definition failing_env :: env where
  "failing_env = example_env\<lparr>ytdlp := failing_ytdlp example_path 512\<rparr>"

definition silent_env :: env where
  "silent_env = example_env\<lparr>ytdlp := silent_ytdlp\<rparr>"

definition rejecting_env :: env where
  "rejecting_env = example_env\<lparr>save_ok := False\<rparr>"

definition second_env :: env where
  "second_env = example_env\<lparr>new_id := ''66c9e1a0f1a2b3c4d5e6f702'', ytdlp := stub_ytdlp example_path 2048\<rparr>"

text \<open>The document and the world that the example run leaves behind.\<close>

definition example_doc :: download where
  "example_doc =
     \<lparr>doc_id = ''66c9e1a0f1a2b3c4d5e6f701'', title = ''video_1700.mp3'', url = ''https://example.com/watch?v=abc'',
      fileName = ''video_1700.mp3'', fileType = ''audio'', downloadDate = 1705,
      filePath = example_path, fileSize = 1024, duration = None, thumbnail = None\<rparr>"

definition stored_world :: world where
  "stored_world =
     \<lparr>fs = [example_path \<mapsto> 1024], db = [example_doc],
      execLog = [app_cmd (JStr ''audio'') example_path (JStr ''https://example.com/watch?v=abc'')]\<rparr>"

text \<open>The play-dl stub: it reports a title and a length, and the pipe writes 1024 bytes.\<close>

definition example_details :: video_details where
  "example_details =
     \<lparr>vd_title = Some ''Test Song'', vd_durationInSec = Num 185, vd_durationRaw = None,
      vd_thumbnails = []\<rparr>"

definition example_play_env :: play_env where
  "example_play_env =
     \<lparr>dirname = ''/srv/app'', now = 1700, new_id = ''66c9e1a0f1a2b3c4d5e6f703'', created = 1705, save_ok = True,
      pipe = (\<lambda>p f. (Finish, f(p \<mapsto> 1024))), num_str = decimal_str,
      video_info = Inr example_details, stream_ok = True, stream_from_info_ok = True\<rparr>"

definition example_play_doc :: download where
  "example_play_doc =
     \<lparr>doc_id = ''66c9e1a0f1a2b3c4d5e6f703'', title = ''Test Song'', url = ''https://example.com/watch?v=abc'',
      fileName = ''Test Song_1700.mp3'', fileType = ''audio'', downloadDate = 1705,
      filePath = ''/srv/app/downloads/Test Song_1700.mp3'', fileSize = 1024,
      duration = Some ''3:05'', thumbnail = None\<rparr>"

definition example_play_response :: response where
  "example_play_response =
     \<lparr>status = 200,
      body = JsObj [(''success'', JsBool True),
                    (''message'', JsStr ''audio downloaded successfully''),
                    (''fileName'', JsStr ''Test Song_1700.mp3''),
                    (''title'', JsStr ''Test Song'')]\<rparr>"

definition example_play_world :: world where
  "example_play_world =
     \<lparr>fs = [''/srv/app/downloads/Test Song_1700.mp3'' \<mapsto> 1024], db = [example_play_doc],
      execLog = []\<rparr>"




text \<open>Runs of \<open>DELETE\<close>: nothing fails, the removal of the document fails, the lookup fails.\<close>

definition all_ok :: delete_env where
  "all_ok = \<lparr>findById_ok = True, unlink_ok = True, findByIdAndDelete_ok = True\<rparr>"

definition record_removal_fails :: delete_env where
  "record_removal_fails = \<lparr>findById_ok = True, unlink_ok = True, findByIdAndDelete_ok = False\<rparr>"

definition lookup_fails :: delete_env where
  "lookup_fails = \<lparr>findById_ok = False, unlink_ok = True, findByIdAndDelete_ok = True\<rparr>"

section \<open>Decimal rendering\<close>

lemma digit_char_0: "digit_char 0 = CHR ''0''"
  by (simp add: digit_char_def)


lemma digit_char_in: "d < 10 \<Longrightarrow> digit_char d \<in> set ''0123456789''"
  unfolding digit_char_def by (rule nth_mem) simp


lemma show_nat_small: "k < 10 \<Longrightarrow> show_nat k = [digit_char k]"
  by (subst show_nat.simps) simp

lemma show_nat_big: "\<not> k < 10 \<Longrightarrow> show_nat k = show_nat (k div 10) @ [digit_char (k mod 10)]"
  by (subst show_nat.simps) simp

lemma padStart_two_digits:
  assumes "k < 100"
  shows "padStart 2 (CHR ''0'') (show_nat k) = two_digits k"
proof (cases "k < 10")
  case True
  then show ?thesis
    by (simp add: show_nat_small padStart_def two_digits_def digit_char_0)
next
  case False
  with assms have "k div 10 < 10" by simp
  with False show ?thesis
    by (simp add: show_nat_big show_nat_small padStart_def two_digits_def)
qed

lemma show_int_of_nat: "show_int (int n) = show_nat n"
  by (simp add: show_int_def)

section \<open>Doubles: exponent and rounding\<close>

lemma two_powi_pos [simp]: "0 < (2::rat) powi k"
  by (simp add: zero_less_power_int)

lemma two_powi_mono: "j \<le> k \<Longrightarrow> (2::rat) powi j \<le> 2 powi k"
  by (rule power_int_increasing) simp_all

lemma two_powi_less_iff: "(2::rat) powi j < 2 powi k \<longleftrightarrow> j < k"
  by (metis linorder_not_le power_int_strict_increasing two_powi_mono numeral_One numeral_less_iff semiring_norm(76))

lemma expo_bounds:
  assumes "0 < q"
  shows "2 powi (expo q) \<le> q \<and> q < 2 powi (expo q + 1)"
proof -
  obtain a b where ab: "quotient_of q = (a, b)" by (cases "quotient_of q")
  then have b: "0 < b" and q: "q = of_int a / of_int b"
    using quotient_of_denom_pos quotient_of_div by blast+
  with assms have a: "0 < a"
    by (simp add: zero_less_divide_iff)
  define la lb where "la = bitlen a" and "lb = bitlen b"
  from bitlen_bounds [OF a] have a1: "2 ^ nat (la - 1) \<le> a" and a2: "a < 2 ^ nat la"
    by (simp_all add: la_def)
  from bitlen_bounds [OF b] have b1: "2 ^ nat (lb - 1) \<le> b" and b2: "b < 2 ^ nat lb"
    by (simp_all add: lb_def)
  have la: "1 \<le> la" and lb: "1 \<le> lb"
    using a b bitlen_eq_zero_iff [of a] bitlen_eq_zero_iff [of b] bitlen_nonneg [of a]
      bitlen_nonneg [of b] by (auto simp: la_def lb_def)
  have ra1: "(2::rat) powi (la - 1) \<le> of_int a"
  proof -
    have "(of_int (2 ^ nat (la - 1)) :: rat) \<le> of_int a" using a1 by (simp only: of_int_le_iff)
    then show ?thesis using la by (simp add: power_int_def)
  qed
  have ra2: "of_int a < (2::rat) powi la"
  proof -
    have "(of_int a :: rat) < of_int (2 ^ nat la)" using a2 by (simp only: of_int_less_iff)
    then show ?thesis using la by (simp add: power_int_def)
  qed
  have rb1: "(2::rat) powi (lb - 1) \<le> of_int b"
  proof -
    have "(of_int (2 ^ nat (lb - 1)) :: rat) \<le> of_int b" using b1 by (simp only: of_int_le_iff)
    then show ?thesis using lb by (simp add: power_int_def)
  qed
  have rb2: "of_int b < (2::rat) powi lb"
  proof -
    have "(of_int b :: rat) < of_int (2 ^ nat lb)" using b2 by (simp only: of_int_less_iff)
    then show ?thesis using lb by (simp add: power_int_def)
  qed
  have rb: "(0::rat) < of_int b" using b by simp
  have up: "q < 2 powi (la - lb + 1)"
  proof -
    have "q < 2 powi la / of_int b"
      unfolding q using ra2 rb by (simp add: divide_strict_right_mono)
    also have "\<dots> \<le> 2 powi la / 2 powi (lb - 1)"
      using rb1 by (simp add: frac_le)
    also have "\<dots> = 2 powi (la - (lb - 1))"
      by (simp add: power_int_diff)
    finally show ?thesis by (simp add: algebra_simps)
  qed
  have lo: "2 powi (la - lb - 1) \<le> q"
  proof -
    have "(2::rat) powi (la - lb - 1) = 2 powi (la - 1) / 2 powi lb"
      by (simp add: power_int_diff [symmetric] algebra_simps)
    also have "\<dots> \<le> of_int a / 2 powi lb"
      using ra1 by (simp add: divide_right_mono)
    also have "\<dots> \<le> of_int a / of_int b"
      using rb2 rb a by (simp add: frac_le)
    finally show ?thesis by (simp add: q)
  qed
  show ?thesis
  proof (cases "2 powi (la - lb) \<le> q")
    case True
    then have "expo q = la - lb"
      by (simp add: expo_def ab la_def lb_def)
    with True up show ?thesis by simp
  next
    case False
    then have "expo q = la - lb - 1"
      by (simp add: expo_def ab la_def lb_def)
    with False lo show ?thesis by simp
  qed
qed

lemma expo_unique:
  assumes "2 powi e \<le> q" "q < 2 powi (e + 1)"
  shows "expo q = e"
proof -
  have q: "0 < q" using assms(1) two_powi_pos [of e] by linarith
  from expo_bounds [OF q] have 1: "2 powi (expo q) \<le> q" and 2: "q < 2 powi (expo q + 1)"
    by simp_all
  from 1 assms(2) have "(2::rat) powi (expo q) < 2 powi (e + 1)" by linarith
  then have "expo q < e + 1" by (simp add: two_powi_less_iff)
  moreover from 2 assms(1) have "(2::rat) powi e < 2 powi (expo q + 1)" by linarith
  then have "e < expo q + 1" by (simp add: two_powi_less_iff)
  ultimately show ?thesis by simp
qed

lemma expo_less:
  assumes "0 < q" "q < 2 powi k"
  shows "expo q < k"
proof -
  from expo_bounds [OF assms(1)] assms(2) have "(2::rat) powi (expo q) < 2 powi k" by linarith
  then show ?thesis by (simp add: two_powi_less_iff)
qed

lemma expo_ge:
  assumes "2 powi k \<le> q"
  shows "k \<le> expo q"
proof -
  have q: "0 < q" using assms two_powi_pos [of k] by linarith
  from expo_bounds [OF q] assms have "(2::rat) powi k < 2 powi (expo q + 1)" by linarith
  then show ?thesis by (simp add: two_powi_less_iff)
qed

lemma rte_upper: "of_int (round_ties_even y) \<le> y + 1 / 2"
  unfolding round_ties_even_def Let_def by (auto; linarith)

lemma rte_lower: "y - 1 / 2 \<le> of_int (round_ties_even y)"
  unfolding round_ties_even_def Let_def by (auto; linarith)

lemma rte_ge_int: "of_int z \<le> y \<Longrightarrow> z \<le> round_ties_even y"
  unfolding round_ties_even_def Let_def by (auto simp: le_floor_iff; linarith)

lemma rte_of_int [simp]: "round_ties_even (of_int z) = z"
  by (simp add: round_ties_even_def)

lemma round_double_pos:
  "0 < q \<Longrightarrow> round_double q = of_int (round_ties_even (q / ulp q)) * ulp q"
  by (simp add: round_double_def)

lemma ulp_pos: "0 < ulp q"
  by (simp add: ulp_def)

lemma ulp_nonneg: "0 \<le> ulp q"
  using ulp_pos [of q] by linarith

lemma ulp_nonzero: "ulp q \<noteq> 0"
  using ulp_pos [of q] by linarith

lemma round_double_upper:
  assumes "0 < q"
  shows "round_double q \<le> q + ulp q / 2"
proof -
  have "of_int (round_ties_even (q / ulp q)) * ulp q \<le> (q / ulp q + 1 / 2) * ulp q"
    using rte_upper [of "q / ulp q"] ulp_nonneg [of q] by (rule mult_right_mono)
  also have "\<dots> = q + ulp q / 2"
    using ulp_nonzero [of q] by (simp add: field_simps)
  finally show ?thesis by (simp add: round_double_pos assms)
qed

lemma round_double_nonneg:
  assumes "0 \<le> q"
  shows "0 \<le> round_double q"
proof (cases "q = 0")
  case True
  then show ?thesis by (simp add: round_double_def)
next
  case False
  with assms have q: "0 < q" by simp
  have "0 \<le> q / ulp q"
    using q ulp_pos [of q] by (simp add: divide_nonneg_pos)
  then have "of_int 0 \<le> q / ulp q" by simp
  then have "0 \<le> round_ties_even (q / ulp q)" by (rule rte_ge_int)
  then have "0 \<le> of_int (round_ties_even (q / ulp q)) * ulp q"
    using ulp_nonneg [of q] by (simp add: mult_nonneg_nonneg)
  then show ?thesis by (simp add: round_double_pos q)
qed

lemma two_powi_nat: "0 \<le> k \<Longrightarrow> (2::rat) powi k = of_int (2 ^ nat k)"
  by (simp add: power_int_def)

lemma round_double_ge_int:
  assumes q: "0 < q" and e: "- 1022 \<le> expo q" "expo q \<le> 52" and k: "of_int k \<le> q"
  shows "of_int k \<le> round_double q"
proof -
  have u: "ulp q = 2 powi (expo q - 52)"
    using e by (simp add: ulp_def max_def)
  have inv: "1 / ulp q = of_int (2 ^ nat (52 - expo q))"
  proof -
    have "1 / ulp q = 2 powi (- (expo q - 52))"
      unfolding u by (simp only: power_int_minus_divide)
    also have "- (expo q - 52) = 52 - expo q" by simp
    also have "(2::rat) powi (52 - expo q) = of_int (2 ^ nat (52 - expo q))"
      using e by (simp add: two_powi_nat)
    finally show ?thesis .
  qed
  have "of_int (k * 2 ^ nat (52 - expo q)) = of_int k * (1 / ulp q)"
    by (simp add: inv)
  also have "\<dots> \<le> q * (1 / ulp q)"
    using k ulp_pos [of q] by (intro mult_right_mono) simp_all
  finally have "of_int (k * 2 ^ nat (52 - expo q)) \<le> q / ulp q" by simp
  then have "k * 2 ^ nat (52 - expo q) \<le> round_ties_even (q / ulp q)"
    by (rule rte_ge_int)
  then have "(of_int (k * 2 ^ nat (52 - expo q)) :: rat) \<le> of_int (round_ties_even (q / ulp q))"
    by (simp only: of_int_le_iff)
  then have A: "of_int (k * 2 ^ nat (52 - expo q)) * ulp q
      \<le> of_int (round_ties_even (q / ulp q)) * ulp q"
    using ulp_nonneg [of q] by (rule mult_right_mono)
  have B: "of_int (k * 2 ^ nat (52 - expo q)) * ulp q = of_int k"
  proof -
    have "of_int (k * 2 ^ nat (52 - expo q)) * ulp q = of_int k * ((1 / ulp q) * ulp q)"
      by (simp add: inv)
    then show ?thesis using ulp_nonzero [of q] by simp
  qed
  from A show ?thesis
    unfolding B round_double_pos [OF q] .
qed

text \<open>
  The quotient of a double below \<open>2^53\<close> by 60 or 3600 is rounded, but its floor is the
  floor of the exact quotient: the double lies on a grid of spacing \<open>2 powi j\<close>, so it
  stays at least one grid step below the next multiple of the divisor, and half a spacing
  of the quotient is less than that step divided by the divisor.
\<close>

lemma floor_round_div:
  fixes x :: rat and d c :: nat
  assumes x0: "0 \<le> x"
    and grid: "x = of_int M * 2 powi j" "j \<le> 0" "0 < x \<Longrightarrow> expo x - 52 \<le> j"
    and d: "2 ^ c \<le> d" "d < 2 ^ (c + 1)"
  shows "\<lfloor>round_double (x / of_nat d)\<rfloor> = \<lfloor>x / of_nat d\<rfloor>"
proof -
  define D :: rat where "D = of_nat d"
  define q where "q = x / D"
  define k where "k = \<lfloor>q\<rfloor>"
  have dpos: "0 < d" using d(1) by (metis less_le_trans zero_less_numeral zero_less_power)
  have D: "0 < D" using dpos by (simp add: D_def)
  have Dc: "(2::rat) ^ c \<le> D" and Dc1: "D < 2 ^ (c + 1)"
  proof -
    have "(of_nat (2 ^ c) :: rat) \<le> of_nat d" using d(1) by (simp only: of_nat_le_iff)
    then show "(2::rat) ^ c \<le> D" by (simp add: D_def)
    have "(of_nat d :: rat) < of_nat (2 ^ (c + 1))" using d(2) by (simp only: of_nat_less_iff)
    then show "D < 2 ^ (c + 1)" by (simp add: D_def)
  qed
  have q0: "0 \<le> q" using x0 D by (simp add: q_def)
  have k0: "0 \<le> k" using q0 by (simp add: k_def)
  have kq: "of_int k \<le> q" and qk: "q < of_int k + 1"
    using floor_correct [of q] by (simp_all add: k_def)
  have "of_int k \<le> round_double q \<and> round_double q < of_int k + 1"
  proof (cases "q < 1 / 2")
    case small: True
    then have k: "k = 0" using q0 by (simp add: k_def floor_eq_iff)
    show ?thesis
    proof (cases "q = 0")
      case True
      then show ?thesis by (simp add: round_double_def k)
    next
      case False
      with q0 have qpos: "0 < q" by simp
      have "q < 2 powi (- 1)" using small by simp
      then have "expo q < - 1" using qpos by (rule expo_less [rotated])
      then have "max (expo q) (- 1022) - 52 \<le> - 54" by simp
      then have "ulp q \<le> 2 powi (- 54)"
        unfolding ulp_def by (rule two_powi_mono)
      then have "ulp q \<le> 1 / 2" 
        by (simp add: power_int_minus_divide) 
      with round_double_upper [OF qpos] small have "round_double q < 1" by linarith
      with round_double_nonneg [OF q0] show ?thesis by (simp add: k)
    qed
  next
    case big: False
    then have qh: "2 powi (- 1) \<le> q" by simp
    then have qpos: "0 < q" using two_powi_pos [of "- 1"] by linarith
    have xpos: "0 < x" using qpos D by (simp add: q_def zero_less_divide_iff)
    have ej: "expo x - 52 \<le> j" using grid(3) xpos by simp
    have eq1: "- 1 \<le> expo q" using qh by (rule expo_ge)
    have eq2: "expo q \<le> expo x - int c"
    proof -
      have "x < 2 powi (expo x + 1)" using expo_bounds [OF xpos] by simp
      then have "q < 2 powi (expo x + 1) / D"
        unfolding q_def using D by (simp add: divide_strict_right_mono)
      also have "\<dots> \<le> 2 powi (expo x + 1) / 2 ^ c"
        using Dc by (simp add: frac_le)
      also have "\<dots> = 2 powi (expo x + 1 - int c)"
        by (simp add: power_int_diff)
      finally have "expo q < expo x + 1 - int c" using qpos by (rule expo_less [rotated])
      then show ?thesis by simp
    qed
    have u: "ulp q = 2 powi (expo q - 52)"
      using eq1 by (simp add: ulp_def max_def)
    define g :: rat where "g = 2 powi j"
    have gpos: "0 < g" by (simp add: g_def)
    have ug: "ulp q \<le> g / 2 ^ c"
    proof -
      have "expo q - 52 \<le> j - int c" using eq2 ej by simp
      then have "ulp q \<le> 2 powi (j - int c)" unfolding u by (rule two_powi_mono)
      then show ?thesis by (simp add: power_int_diff g_def)
    qed
    have lower: "of_int k \<le> round_double q"
    proof (rule round_double_ge_int [OF qpos _ _ kq])
      show "- 1022 \<le> expo q" using eq1 by simp
      show "expo q \<le> 52" using eq2 ej grid(2) by simp
    qed
    have gap: "g \<le> D * (of_int k + 1) - x"
    proof -
      have ginv: "1 / g = of_int (2 ^ nat (- j))"
      proof -
        have "1 / g = 2 powi (- j)" unfolding g_def by (simp only: power_int_minus_divide)
        then show ?thesis using grid(2) by (simp add: two_powi_nat)
      qed
      define N where "N = int d * (k + 1) * 2 ^ nat (- j)"
      have N: "D * (of_int k + 1) = of_int N * g"
      proof -
        have "of_int N * g = D * (of_int k + 1) * ((1 / g) * g)"
          by (simp add: N_def ginv D_def)
        then show ?thesis using gpos by simp
      qed
      have "x < D * (of_int k + 1)"
        using qk D by (simp add: q_def pos_divide_less_eq mult.commute)
      then have "of_int M * g < of_int N * g" using grid(1) N by (simp add: g_def)
      then have "(of_int M :: rat) < of_int N" using gpos by (simp add: mult_less_cancel_right)
      then have "M + 1 \<le> N" by simp
      then have "(of_int (M + 1) :: rat) \<le> of_int N" by (simp only: of_int_le_iff)
      then have "of_int (M + 1) * g \<le> of_int N * g" using gpos by (simp add: mult_right_mono)
      then show ?thesis using grid(1) N by (simp add: g_def algebra_simps)
    qed
    have upper: "round_double q < of_int k + 1"
    proof -
      have "q \<le> of_int k + 1 - g / D"
      proof -
        have "x \<le> D * (of_int k + 1) - g" using gap by simp
        then have "x / D \<le> (D * (of_int k + 1) - g) / D" using D by (simp add: divide_right_mono)
        also have "\<dots> = of_int k + 1 - g / D" using D by (simp add: field_simps)
        finally show ?thesis by (simp add: q_def)
      qed
      moreover have "ulp q / 2 < g / D"
      proof -
        have "ulp q / 2 \<le> g / 2 ^ c / 2" using ug by simp
        also have "\<dots> = g / 2 ^ (c + 1)" by simp
        also have "\<dots> < g / D" using Dc1 D gpos by (simp add: divide_strict_left_mono)
        finally show ?thesis .
      qed
      ultimately show ?thesis using round_double_upper [OF qpos] by linarith
    qed
    from lower upper show ?thesis ..
  qed
  then have "\<lfloor>round_double q\<rfloor> = k" by (simp add: floor_eq_iff)
  then show ?thesis by (simp add: q_def k_def D_def)
qed

lemma expo_mono:
  assumes "0 < p" "p \<le> q"
  shows "expo p \<le> expo q"
proof -
  have q: "0 < q" using assms by linarith
  from expo_bounds [OF assms(1)] expo_bounds [OF q] assms(2)
  have "(2::rat) powi (expo p) < 2 powi (expo q + 1)" by linarith
  then show ?thesis by (simp add: two_powi_less_iff)
qed

lemma double_grid:
  assumes "is_double x" "0 \<le> x" "x < 2 ^ 53"
  shows "\<exists>M j. x = of_int M * 2 powi j \<and> j \<le> 0 \<and> (0 < x \<longrightarrow> expo x - 52 \<le> j)"
proof (cases "x = 0")
  case True
  then have "x = of_int 0 * 2 powi 0 \<and> (0::int) \<le> 0 \<and> (0 < x \<longrightarrow> expo x - 52 \<le> 0)" by simp
  then show ?thesis by blast
next
  case False
  with assms have x: "0 < x" by simp
  have "x < 2 powi 53" using assms(3) by simp
  then have e: "expo x < 53" using x by (rule expo_less [rotated])
  define j where "j = max (expo x) (- 1022) - 52"
  have "round_double x = x" using assms(1) by (simp add: is_double_def)
  then have "x = of_int (round_ties_even (x / ulp x)) * 2 powi j"
    by (simp add: round_double_pos x ulp_def j_def)
  moreover have "j \<le> 0" using e by (simp add: j_def)
  moreover have "expo x - 52 \<le> j" by (simp add: j_def)
  ultimately show ?thesis by blast
qed

lemma floor_divide_int:
  fixes x :: rat and d :: int
  assumes "0 < d"
  shows "\<lfloor>x / of_int d\<rfloor> = \<lfloor>x\<rfloor> div d"
proof -
  define f where "f = \<lfloor>x\<rfloor>"
  have D: "(0::rat) < of_int d" using assms by simp
  have f1: "of_int f \<le> x" and f2: "x < of_int f + 1"
    using floor_correct [of x] by (simp_all add: f_def)
  define qq rr where "qq = f div d" and "rr = f mod d"
  have fqr: "f = d * qq + rr" by (simp add: qq_def rr_def)
  have rr: "0 \<le> rr" "rr < d" using assms by (simp_all add: rr_def)
  have "d * qq \<le> f" using fqr rr by linarith
  then have "(of_int (d * (f div d)) :: rat) \<le> of_int f"
    unfolding qq_def by (simp only: of_int_le_iff)
  with f1 have lo: "of_int d * of_int (f div d) \<le> x" by simp
  have "d * (qq + 1) = d * qq + d" by (simp add: algebra_simps)
  then have "f + 1 \<le> d * (qq + 1)" using fqr rr by linarith
  then have "(of_int (f + 1) :: rat) \<le> of_int (d * (f div d + 1))"
    unfolding qq_def by (simp only: of_int_le_iff)
  with f2 have hi: "x < of_int d * (of_int (f div d) + 1)" by simp
  have "of_int (f div d) \<le> x / of_int d"
    using lo D by (simp add: pos_le_divide_eq mult.commute)
  moreover have "x / of_int d < of_int (f div d) + 1"
    using hi D by (simp add: pos_divide_less_eq mult.commute)
  ultimately have "\<lfloor>x / of_int d\<rfloor> = f div d"
    by (simp add: floor_eq_iff)
  then show ?thesis by (simp add: f_def)
qed

lemma js_trunc_nonneg: "0 \<le> y \<Longrightarrow> js_trunc y = \<lfloor>y\<rfloor>"
  by (simp add: js_trunc_def)

lemma hms_double:
  assumes x: "is_double x" "0 \<le> x" "x < 2 ^ 53"
  shows "hms (Num x) =
           (Num (of_int (\<lfloor>x\<rfloor> div 3600)), Num (of_int (\<lfloor>x\<rfloor> mod 3600 div 60)),
            Num (of_int (\<lfloor>x\<rfloor> mod 60)))"
proof -
  define f where "f = \<lfloor>x\<rfloor>"
  from double_grid [OF x] obtain M j where
    g: "x = of_int M * 2 powi j" "j \<le> 0" "0 < x \<Longrightarrow> expo x - 52 \<le> j" by blast
  have t1: "js_trunc (x / 3600) = f div 3600"
    using x(2) floor_divide_int [of 3600 x] by (simp add: js_trunc_nonneg f_def)
  have t2: "js_trunc (x / 60) = f div 60"
    using x(2) floor_divide_int [of 60 x] by (simp add: js_trunc_nonneg f_def)
  have h: "\<lfloor>round_double (x / 3600)\<rfloor> = f div 3600"
    using floor_round_div [OF x(2) g, of 11 3600] floor_divide_int [of 3600 x]
    by (simp add: f_def)
  define r where "r = x - 3600 * of_int (f div 3600)"
  have r0: "0 \<le> r"
  proof -
    define qq rr where "qq = f div 3600" and "rr = f mod 3600"
    have "f = 3600 * qq + rr" by (simp add: qq_def rr_def)
    moreover have "0 \<le> rr" by (simp add: rr_def)
    ultimately have "3600 * qq \<le> f" by linarith
    then have "3600 * (f div 3600) \<le> f" by (simp add: qq_def)
    then have "(of_int (3600 * (f div 3600)) :: rat) \<le> of_int f" by (simp only: of_int_le_iff)
    moreover have "of_int f \<le> x" by (simp add: f_def)
    ultimately show ?thesis by (simp add: r_def)
  qed
  have rx: "r \<le> x"
  proof -
    have "0 \<le> f" using x(2) by (simp add: f_def)
    then have "0 \<le> f div 3600" by (simp add: pos_imp_zdiv_nonneg_iff)
    then have "(0::rat) \<le> of_int (f div 3600)" by simp
    then show ?thesis by (simp add: r_def)
  qed
  have rfloor: "\<lfloor>r\<rfloor> = f mod 3600"
  proof -
    have "r = x - of_int (3600 * (f div 3600))" by (simp add: r_def)
    then have "\<lfloor>r\<rfloor> = f - 3600 * (f div 3600)"
      by (simp only: floor_diff_of_int f_def)
    then show ?thesis by (simp add: minus_mult_div_eq_mod)
  qed
  have rgrid: "r = of_int (M - 3600 * (f div 3600) * 2 ^ nat (- j)) * 2 powi j"
  proof -
    have "(of_int (2 ^ nat (- j)) :: rat) * 2 powi j = 2 powi (- j) * 2 powi j"
      using g(2) by (simp add: two_powi_nat)
    also have "\<dots> = 1" by (simp add: power_int_minus)
    finally have one: "(of_int (2 ^ nat (- j)) :: rat) * 2 powi j = 1" .
    have "(of_int (M - 3600 * (f div 3600) * 2 ^ nat (- j)) :: rat) * 2 powi j
        = of_int M * 2 powi j - 3600 * of_int (f div 3600) * (of_int (2 ^ nat (- j)) * 2 powi j)"
      by (simp add: algebra_simps)
    also have "\<dots> = x - 3600 * of_int (f div 3600)"
      by (simp only: one g(1) [symmetric] mult_1_right)
    finally show ?thesis by (simp add: r_def)
  qed
  have rexp: "0 < r \<Longrightarrow> expo r - 52 \<le> j"
  proof -
    assume rp: "0 < r"
    then have "expo r \<le> expo x" using rx by (rule expo_mono)
    moreover have "0 < x" using rp rx by linarith
    ultimately show ?thesis using g(3) by simp
  qed
  have m: "\<lfloor>round_double (r / 60)\<rfloor> = f mod 3600 div 60"
    using floor_round_div [OF r0 rgrid g(2) rexp, of 5 60] floor_divide_int [of 60 r]
    by (simp add: rfloor)
  have s: "\<lfloor>x - 60 * of_int (f div 60)\<rfloor> = f mod 60"
  proof -
    have "x - 60 * of_int (f div 60) = x - of_int (60 * (f div 60))" by simp
    then have "\<lfloor>x - 60 * of_int (f div 60)\<rfloor> = f - 60 * (f div 60)"
      by (simp only: floor_diff_of_int f_def)
    then show ?thesis by (simp add: minus_mult_div_eq_mod)
  qed
  show ?thesis
    by (simp add: hms_def t1 t2 h m [unfolded r_def] s f_def [symmetric])
qed

section \<open>Duration labels: the format\<close>

lemma hms_bounds: "n mod 3600 div 60 < (60::nat)" "n mod 60 < (60::nat)"
  by (simp_all add: less_mult_imp_div_less)

lemma js_or_num: "js_or (Num x) (Num 0) = Num x"
  by (simp add: js_or_def)

lemma js_or_nan: "js_or NaN (Num 0) = Num 0"
  by (simp add: js_or_def)

lemma hms_zero: "hms (Num 0) = (Num 0, Num 0, Num 0)"
  by (simp add: hms_def round_double_def js_trunc_def)

lemma secondsToHms_double:
  assumes S: "\<forall>k. \<bar>k\<bar> \<le> 2 ^ 53 \<longrightarrow> S (of_int k) = show_int k"
    and x: "is_double x" "0 \<le> x" "x < 2 ^ 53"
    and n: "n = nat \<lfloor>x\<rfloor>"
  shows "secondsToHms S (Num x) =
     (if 3600 \<le> n
      then show_nat (n div 3600) @ '':'' @ two_digits (n mod 3600 div 60) @ '':''
             @ two_digits (n mod 60)
      else show_nat (n mod 3600 div 60) @ '':'' @ two_digits (n mod 60))"
proof -
  have f: "\<lfloor>x\<rfloor> = int n" using x(2) n by simp
  have "\<lfloor>x\<rfloor> < 2 ^ 53"
  proof -
    have "\<lfloor>x\<rfloor> < \<lfloor>(2::rat) ^ 53\<rfloor>"  
      using x(3) by (metis floor_less_iff floor_of_int of_int_numeral of_int_power)
    then show ?thesis by simp
  qed
  then have n53: "int n < 2 ^ 53" using f by simp
  have Snat: "S (of_int (int k)) = show_nat k" if "k \<le> n" for k
  proof -
    have "\<bar>int k\<bar> \<le> 2 ^ 53" using that n53 by simp
    with S have "S (of_int (int k)) = show_int (int k)" by blast
    then show ?thesis by (simp add: show_int_of_nat)
  qed
  have c: "int n div 3600 = int (n div 3600)" "int n mod 3600 div 60 = int (n mod 3600 div 60)"
    "int n mod 60 = int (n mod 60)"
    by (simp_all add: zdiv_int zmod_int)
  have le: "n div 3600 \<le> n" "n mod 3600 div 60 \<le> n" "n mod 60 \<le> n"
  proof -
    show "n div 3600 \<le> n" by simp
    have "n mod 3600 div 60 \<le> n mod 3600" by simp
    also have "\<dots> \<le> n" by simp
    finally show "n mod 3600 div 60 \<le> n" .
    show "n mod 60 \<le> n" by simp
  qed
  have m: "n mod 3600 div 60 < 100" and s: "n mod 60 < 100"
    using hms_bounds [of n] by linarith+
  have h: "(0 < n div 3600) = (3600 \<le> n)"
    by (simp add: div_greater_zero_iff)
  have parts: "hms (Num x) =
      (Num (of_int (int (n div 3600))), Num (of_int (int (n mod 3600 div 60))),
       Num (of_int (int (n mod 60))))"
    using hms_double [OF x] by (simp only: f c)
  show ?thesis
    unfolding secondsToHms_def js_or_num Let_def parts prod.case js_String.simps js_positive.simps
      Snat [OF le(1)] Snat [OF le(2)] Snat [OF le(3)]
      padStart_two_digits [OF m] padStart_two_digits [OF s]
    using h by simp
qed

lemma secondsToHms_NaN:
  assumes S: "\<forall>k. \<bar>k\<bar> \<le> 2 ^ 53 \<longrightarrow> S (of_int k) = show_int k"
  shows "secondsToHms S NaN = ''0:00''"
proof -
  have "\<bar>0::int\<bar> \<le> 2 ^ 53" by simp
  with S have "S (of_int 0) = show_int 0" by blast
  then have "S 0 = ''0''"
    by (simp add: show_int_def show_nat_small digit_char_0)
  then show ?thesis
    by (simp add: secondsToHms_def js_or_nan hms_zero padStart_def)
qed

lemma formatDuration_whole:
  "formatDuration S (Num (of_int i)) = secondsToHms S (Num (of_int i))"
proof -
  have "of_int \<lfloor>of_int i - 60 * rat_of_int (js_trunc (of_int i / 60))\<rfloor>
      = of_int i - 60 * rat_of_int (js_trunc (of_int i / 60))"
  proof -
    have "of_int i - 60 * rat_of_int (js_trunc (of_int i / 60))
        = of_int (i - 60 * js_trunc (of_int i / 60))" by simp
    then show ?thesis by (simp only: floor_of_int)
  qed
  then show ?thesis
    by (simp add: formatDuration_def secondsToHms_def js_or_num hms_def Let_def)
qed

lemma formatDuration_NaN: "formatDuration S NaN = ''NaN:NaN''"
  by (simp add: formatDuration_def padStart_def)

lemma decimal_str_int: "\<forall>k. \<bar>k\<bar> \<le> 2 ^ 53 \<longrightarrow> decimal_str (of_int k) = show_int k"
  by (simp add: decimal_str_def)

lemma is_double_example: "is_double (119 / 2)"
  by code_simp

lemma is_double_large: "is_double (10 ^ 20)"
  by code_simp

lemma hms_large: "hms (Num (10 ^ 20)) = (Num 27777777777777776, Num 46, Num 40)"
  by code_simp

lemma secondsToHms_185: "secondsToHms decimal_str (js_or (Num 185) (Num 0)) = ''3:05''"
  by code_simp

text \<open>
  C10, as the helpers have it. For a number of seconds \<open>x\<close> that is a double with
  \<open>0 \<le> x < 2^53\<close>, whole or fractional, and \<open>n\<close> its integer part, with \<open>h = n div 3600\<close>,
  \<open>m = n mod 3600 div 60\<close> and \<open>s = n mod 60\<close>: \<open>secondsToHms\<close> returns \<open>h:mm:ss\<close> when \<open>x\<close>
  is at least 3600 (exactly when \<open>h > 0\<close>) and \<open>m:ss\<close> otherwise, the minutes within the
  hour and the seconds written with two digits, both below 60, and
  \<open>h * 3600 + m * 60 + s = n\<close>. An argument that \<open>Number\<close> turns into \<open>NaN\<close> yields \<open>0:00\<close>.
  \<open>formatDuration\<close> returns the label of \<open>secondsToHms\<close> on every whole number of seconds.
\<close>

theorem secondsToHms_label:
  assumes "\<forall>k. \<bar>k\<bar> \<le> 2 ^ 53 \<longrightarrow> S (of_int k) = show_int k"
    and "is_double x" "0 \<le> x" "x < 2 ^ 53" and "n = nat \<lfloor>x\<rfloor>"
  shows "secondsToHms S (Num x) =
     (if 3600 \<le> n
      then show_nat (n div 3600) @ '':'' @ two_digits (n mod 3600 div 60) @ '':''
             @ two_digits (n mod 60)
      else show_nat (n mod 3600 div 60) @ '':'' @ two_digits (n mod 60))
   \<and> (3600 \<le> n) = (3600 \<le> x)
   \<and> (n div 3600) * 3600 + (n mod 3600 div 60) * 60 + n mod 60 = n
   \<and> n mod 3600 div 60 < 60 \<and> n mod 60 < 60
   \<and> (3600 \<le> n) = (0 < n div 3600)
   \<and> secondsToHms S NaN = ''0:00''
   \<and> formatDuration S (Num (of_int i)) = secondsToHms S (Num (of_int i))"
proof -
  have sum: "(n div 3600) * 3600 + (n mod 3600 div 60) * 60 + n mod 60 = n"
  proof -
    have "n mod 3600 mod 60 = n mod 60"
      by (simp add: mod_mod_cancel)
    then have "(n mod 3600 div 60) * 60 + n mod 60 = n mod 3600"
      by (metis div_mult_mod_eq)
    then show ?thesis
      by (metis add.assoc div_mult_mod_eq)
  qed
  have ge: "(3600 \<le> n) = (3600 \<le> x)"
  proof -
    have f: "0 \<le> \<lfloor>x\<rfloor>" using assms(3) by simp
    have "(3600 \<le> n) = (int 3600 \<le> \<lfloor>x\<rfloor>)"
      unfolding assms(5) using f by (simp only: le_nat_iff)
    also have "\<dots> = (of_int (int 3600) \<le> x)" by (rule le_floor_iff)
    finally show ?thesis by simp
  qed
  show ?thesis
    using secondsToHms_double [OF assms] sum ge hms_bounds [of n] secondsToHms_NaN [OF assms(1)]
      formatDuration_whole [of S i]
    by (simp add: div_greater_zero_iff)
qed

theorem secondsToHms_label_witness:
  "decimal_str (of_int 59) = show_int 59
   \<and> is_double (119 / 2) \<and> (0::rat) \<le> 119 / 2 \<and> (119 / 2 :: rat) < 2 ^ 53
   \<and> (59::nat) = nat \<lfloor>119 / 2 :: rat\<rfloor>
   \<and> secondsToHms decimal_str (Num (119 / 2)) = ''0:59''
   \<and> secondsToHms decimal_str NaN = ''0:00''"
proof -
  have n: "(59::nat) = nat \<lfloor>119 / 2 :: rat\<rfloor>" by code_simp
  have b: "(0::rat) \<le> 119 / 2" "(119 / 2 :: rat) < 2 ^ 53" by simp_all
  from secondsToHms_label [OF decimal_str_int is_double_example b n, of 0]
  have "secondsToHms decimal_str (Num (119 / 2)) = ''0:59''"
    and "secondsToHms decimal_str NaN = ''0:00''"
    by (simp_all add: show_nat_small two_digits_def digit_char_def)
  moreover have "decimal_str (of_int 59) = show_int 59"
    by (simp add: decimal_str_def)
  ultimately show ?thesis using is_double_example b n by blast
qed

text \<open>
  The parts of C10 that fail. The number \<open>10^20\<close> is a double; the quotient
  \<open>10^20 / 3600\<close> is not, and it is rounded to \<open>27777777777777776\<close>, so that
  \<open>h * 3600 + m * 60 + s\<close> is not the input. And \<open>formatDuration\<close>, which does not
  replace \<open>NaN\<close> by zero, labels a non-numeric input \<open>NaN:NaN\<close>.
\<close>

theorem secondsToHms_label_counterexample:
  "is_double (10 ^ 20)
   \<and> hms (js_or (Num (10 ^ 20)) (Num 0)) = (Num 27777777777777776, Num 46, Num 40)
   \<and> (27777777777777776 * 3600 + 46 * 60 + 40 :: rat) \<noteq> 10 ^ 20
   \<and> formatDuration decimal_str NaN = ''NaN:NaN''
   \<and> secondsToHms decimal_str NaN = ''0:00''"
proof -
  have "js_or (Num (10 ^ 20)) (Num 0) = Num (10 ^ 20)" by (simp add: js_or_def)
  then show ?thesis
    using is_double_large hms_large formatDuration_NaN [of decimal_str]
      secondsToHms_NaN [OF decimal_str_int]
    by simp
qed

section \<open>File names\<close>



lemma show_nat_digits: "set (show_nat n) \<subseteq> set ''0123456789''"
proof (induction n rule: show_nat.induct)
  case (1 n)
  show ?case
  proof (cases "n < 10")
    case True
    then show ?thesis using digit_char_in [of n] by (simp add: show_nat_small)
  next
    case False
    then show ?thesis
      using "1" digit_char_in [of "n mod 10"] by (simp add: show_nat_big)
  qed
qed


lemma show_nat_no_dot: "CHR ''.'' \<notin> set (show_nat n)"
  using show_nat_digits [of n] by auto







section \<open>\<open>POST /download\<close>: the branches\<close>

lemma app_post_invalid:
  "\<not> truthy (req_url rq) \<or> \<not> truthy (req_type rq) \<Longrightarrow>
   app_post_download e rq w = (app_invalid, w)"
  by (auto simp: app_post_download_def Let_def)

lemma app_post_exec_error:
  assumes "truthy (req_url rq)" "truthy (req_type rq)" "exec_error (app_exec e rq w)"
  shows "app_post_download e rq w =
           (app_download_failed (exec_stderr (app_exec e rq w)),
            w\<lparr>fs := exec_fs (app_exec e rq w),
              execLog := execLog w @ [app_cmd (req_type rq) (app_filepath e rq) (req_url rq)]\<rparr>)"
  using assms by (simp add: app_post_download_def Let_def)

lemma app_post_missing_file:
  assumes "truthy (req_url rq)" "truthy (req_type rq)" "\<not> exec_error (app_exec e rq w)"
    "exec_fs (app_exec e rq w) (app_filepath e rq) = None"
  shows "app_post_download e rq w =
           (app_db_failed,
            w\<lparr>fs := exec_fs (app_exec e rq w),
              execLog := execLog w @ [app_cmd (req_type rq) (app_filepath e rq) (req_url rq)]\<rparr>)"
  using assms by (simp add: app_post_download_def Let_def)


lemma to_str_kind:
  "truthy v \<Longrightarrow> to_str v \<in> {''audio'', ''video''} \<Longrightarrow> v = JStr ''audio'' \<or> v = JStr ''video''"
  by (cases v) (auto split: if_splits)

lemma to_str_audio: "truthy v \<Longrightarrow> to_str v = ''audio'' \<Longrightarrow> v = JStr ''audio''"
  by (cases v) (auto split: if_splits)

lemma to_str_video: "truthy v \<Longrightarrow> to_str v = ''video'' \<Longrightarrow> v = JStr ''video''"
  by (cases v) (auto split: if_splits)

lemma app_post_success:
  assumes "app_post_download e rq w = (r, w')" "status r = 200"
  shows "\<exists>n. exec_fs (app_exec e rq w) (app_filepath e rq) = Some n
           \<and> fs w' = exec_fs (app_exec e rq w)
           \<and> (req_type rq = JStr ''audio'' \<or> req_type rq = JStr ''video'')
           \<and> db w' = db w @
                [\<lparr>doc_id = new_id e, title = app_filename (req_type rq) (now e),
                  url = to_str (req_url rq), fileName = app_filename (req_type rq) (now e),
                  fileType = to_str (req_type rq), downloadDate = created e,
                  filePath = app_filepath e rq, fileSize = n, duration = None,
                  thumbnail = None\<rparr>]"
proof -
  have "truthy (req_url rq) \<and> truthy (req_type rq)"
  proof (rule ccontr)
    assume "\<not> (truthy (req_url rq) \<and> truthy (req_type rq))"
    then have "app_post_download e rq w = (app_invalid, w)"
      by (simp add: app_post_invalid)
    with assms show False by (auto simp: app_invalid_def)
  qed
  then have t: "truthy (req_url rq)" "truthy (req_type rq)" by simp_all
  have ne: "\<not> exec_error (app_exec e rq w)"
    using assms app_post_exec_error [OF t, of e w] by (auto simp: app_download_failed_def)
  obtain n where n: "exec_fs (app_exec e rq w) (app_filepath e rq) = Some n"
    using assms app_post_missing_file [OF t ne]
    by (cases "exec_fs (app_exec e rq w) (app_filepath e rq)") (auto simp: app_db_failed_def)
  have "validate_app \<lparr>doc_id = new_id e, title = app_filename (req_type rq) (now e),
                  url = to_str (req_url rq), fileName = app_filename (req_type rq) (now e),
                  fileType = to_str (req_type rq), downloadDate = created e,
                  filePath = app_filepath e rq, fileSize = n, duration = None,
                  thumbnail = None\<rparr>"
    using assms t ne n
    by (auto simp: app_post_download_def Let_def app_db_failed_def save_def split: if_splits)
  then have k: "req_type rq = JStr ''audio'' \<or> req_type rq = JStr ''video''"
    using t(2) by (simp add: validate_app_def to_str_kind)
  show ?thesis
    using assms t ne n k
    by (auto simp: app_post_download_def Let_def app_db_failed_def save_def split: if_splits)
qed


lemma part0_post_write_error:
  assumes "truthy (req_url rq)" "truthy (req_type rq)" "video_info e = Inr vd"
    "stream_ok e \<or> stream_from_info_ok e"
    "pipe e (part0_filePath e rq vd) (fs w) = (WriteError msg, f1)"
  shows "part0_post_download e rq w =
           (Some (error_response 500 ''File write failed''),
            w\<lparr>fs := cleanup (part0_filePath e rq vd) f1\<rparr>)"
  using assms by (auto simp: part0_post_download_def Let_def)


lemma cleanup_removes: "cleanup p f p = None"
  by (simp add: cleanup_def)

lemma part1_post_error_cleanup:
  assumes "validateURL e (req_url rq)" "getInfo e = Inr info"
    "pipe e (part1_filePath e rq info) (fs w) = (ev, f1)" "ev \<noteq> Finish"
  shows "status (fst (part1_post_download e rq w)) = 500
       \<and> fs (snd (part1_post_download e rq w)) (part1_filePath e rq info) = None
       \<and> db (snd (part1_post_download e rq w)) = db w"
  using assms
  by (cases ev) (simp_all add: part1_post_download_def Let_def error_response_def cleanup_def)

lemma part0_post_success:
  assumes "part0_post_download e rq w = (Some r, w')" "status r = 200"
  shows "\<exists>vd n d. video_info e = Inr vd
           \<and> pipe e (part0_filePath e rq vd) (fs w) = (Finish, fs w')
           \<and> fs w' (part0_filePath e rq vd) = Some n
           \<and> (req_type rq = JStr ''audio'' \<or> req_type rq = JStr ''video'')
           \<and> db w' = db w @ [d] \<and> title d = rawTitle vd
           \<and> fileName d = fileName_of (safe_title vd) (now e) (req_type rq)
           \<and> filePath d = part0_filePath e rq vd \<and> fileSize d = n"
proof -
  from assms have t: "truthy (req_type rq)"
    by (auto simp: part0_post_download_def Let_def error_response_def split: if_splits)
  show ?thesis
    using assms
    by (auto simp: part0_post_download_def Let_def save_def error_response_def part0_db_failed_def
        validate_required_def
        split: if_splits sum.splits prod.splits pipe_event.splits option.splits
        dest: to_str_audio [OF t] to_str_video [OF t])
qed

subsection \<open>The example runs, evaluated\<close>

lemma show_nat_1700: "show_nat 1700 = ''1700''"
  by (simp add: show_nat_big show_nat_small digit_char_def)

lemmas example_defs =
  example_env_def example_request_def empty_world_def example_path_def example_doc_def
  stored_world_def bad_kind_request_def missing_kind_request_def failing_env_def
  silent_env_def rejecting_env_def second_env_def stub_ytdlp_def silent_ytdlp_def
  failing_ytdlp_def

lemmas app_defs =
  app_post_download_def app_filepath_def app_exec_def app_filename_def app_ext_def
  DOWNLOAD_DIR_def path_join_def save_def validate_app_def Let_def show_nat_1700

lemmas part0_defs =
  part0_post_download_def part0_filePath_def fileName_of_def fileExt_def downloadsDir_def
  path_join_def save_def validate_required_def rawTitle_def safe_title_def sanitize_def
  trim_def is_word_char_def is_space_char_def example_play_env_def example_details_def
  Let_def show_nat_1700

lemma example_app_run:
  "app_post_download example_env example_request empty_world =
     (app_success example_env (JStr ''audio'') ''video_1700.mp3'', stored_world)"
  by (simp add: example_defs app_defs)

lemma example_part0_run:
  "part0_post_download example_play_env example_request empty_world =
     (Some example_play_response, example_play_world)"
  by (simp add: example_defs part0_defs secondsToHms_185 example_play_response_def
      example_play_world_def example_play_doc_def)


section \<open>\<open>POST /download\<close>: the claims\<close>

text \<open>
  C2, as the handler of \<open>src/app.js\<close> has it. When \<open>url\<close> or \<open>type\<close> is missing from the
  request (undefined, null, false or the empty string), the response is HTTP 400, the
  state is untouched and in particular no command is handed to \<open>exec\<close>: the external
  downloader is invoked zero times. The guard does not look at the value of a \<open>type\<close> that
  is present.
\<close>

theorem app_post_download_missing_field:
  assumes "\<not> truthy (req_url rq) \<or> \<not> truthy (req_type rq)"
  shows "status (fst (app_post_download e rq w)) = 400
       \<and> snd (app_post_download e rq w) = w
       \<and> execLog (snd (app_post_download e rq w)) = execLog w"
  using assms by (simp add: app_post_invalid app_invalid_def)

theorem app_post_download_missing_field_witness:
  "\<not> truthy (req_type missing_kind_request)
   \<and> status (fst (app_post_download example_env missing_kind_request empty_world)) = 400
   \<and> execLog (snd (app_post_download example_env missing_kind_request empty_world)) = []"
  using app_post_download_missing_field [of missing_kind_request example_env empty_world]
  by (simp add: missing_kind_request_def empty_world_def)

text \<open>
  The part of C2 that fails: a request whose \<open>type\<close> is \<open>foo\<close> passes the guard and is
  handled as a video download. The command is run once and writes the \<open>mp4\<close> file; the
  answer is a 500, when schema validation refuses the record, not a 400.
\<close>

theorem app_post_download_unknown_kind_counterexample:
  "truthy (req_url bad_kind_request) \<and> truthy (req_type bad_kind_request)
   \<and> req_type bad_kind_request \<noteq> JStr ''audio'' \<and> req_type bad_kind_request \<noteq> JStr ''video''
   \<and> status (fst (app_post_download video_env bad_kind_request empty_world)) = 500
   \<and> execLog empty_world = []
   \<and> execLog (snd (app_post_download video_env bad_kind_request empty_world))
       = [app_cmd (JStr ''foo'') ''/srv/app/downloads/video_1700.mp4''
            (JStr ''https://example.com/watch?v=abc'')]
   \<and> fs (snd (app_post_download video_env bad_kind_request empty_world))
        ''/srv/app/downloads/video_1700.mp4'' = Some 1024
   \<and> db (snd (app_post_download video_env bad_kind_request empty_world)) = []"
  by (simp add: example_defs video_env_def app_defs app_db_failed_def)

text \<open>
  C3 requires that a failed download leaves no destination file and no record. In
  \<open>src/app.js\<close> the error branch of the \<open>exec\<close> callback answers 500 and returns: when the
  command fails after writing part of the file, the file stays in the download
  directory. No record is persisted.
\<close>

theorem app_post_download_failure_leaves_file:
  "exec_error (app_exec failing_env example_request empty_world)
   \<and> status (fst (app_post_download failing_env example_request empty_world)) = 500
   \<and> fs (snd (app_post_download failing_env example_request empty_world))
        (app_filepath failing_env example_request) = Some 512
   \<and> db (snd (app_post_download failing_env example_request empty_world)) = []"
  by (simp add: example_defs app_defs app_download_failed_def)

text \<open>
  The request of that run passes the guard of the handler, so the run is one of a
  well-formed request, and the file it leaves is there.
\<close>

theorem app_post_download_failure_leaves_file_witness:
  "truthy (req_url example_request) \<and> truthy (req_type example_request)
   \<and> fs (snd (app_post_download failing_env example_request empty_world))
        (app_filepath failing_env example_request) \<noteq> None"
  using app_post_download_failure_leaves_file by (simp add: example_request_def)

text \<open>
  C4, as the handler has it. When the command reports success and the destination file
  does not exist, \<open>fs.statSync\<close> throws inside the \<open>try\<close> that also guards \<open>save()\<close>: the
  response is the 500 \<open>File saved but DB insert failed\<close>, and no record is persisted.
\<close>

theorem app_post_download_missing_file:
  assumes "truthy (req_url rq)" "truthy (req_type rq)" "\<not> exec_error (app_exec e rq w)"
    "exec_fs (app_exec e rq w) (app_filepath e rq) = None"
  shows "fst (app_post_download e rq w) = app_db_failed
       \<and> status (fst (app_post_download e rq w)) = 500
       \<and> db (snd (app_post_download e rq w)) = db w"
  using app_post_missing_file [OF assms] by (simp add: app_db_failed_def)

theorem app_post_download_missing_file_witness:
  "truthy (req_url example_request) \<and> truthy (req_type example_request)
   \<and> \<not> exec_error (app_exec silent_env example_request empty_world)
   \<and> exec_fs (app_exec silent_env example_request empty_world)
        (app_filepath silent_env example_request) = None
   \<and> fst (app_post_download silent_env example_request empty_world) = app_db_failed
   \<and> db (snd (app_post_download silent_env example_request empty_world)) = []"
  using app_post_download_missing_file [of example_request silent_env empty_world]
  by (simp add: example_defs app_exec_def)

text \<open>
  The part of C4 that fails: the response to a missing file is not a failure of its own.
  It is the very response that a rejected store write gets when the file is there.
\<close>

theorem app_post_download_missing_file_counterexample:
  "\<not> exec_error (app_exec silent_env example_request empty_world)
   \<and> exec_fs (app_exec silent_env example_request empty_world)
        (app_filepath silent_env example_request) = None
   \<and> exec_fs (app_exec rejecting_env example_request empty_world)
        (app_filepath rejecting_env example_request) = Some 1024
   \<and> \<not> save_ok rejecting_env
   \<and> fst (app_post_download silent_env example_request empty_world)
       = fst (app_post_download rejecting_env example_request empty_world)"
  by (simp add: example_defs app_defs)

text \<open>
  C5, as the handlers have it. A successful \<open>POST /download\<close> appends exactly one record;
  the \<open>type\<close> was \<open>audio\<close> or \<open>video\<close>, the \<open>fileName\<close> ends in \<open>.mp3\<close> for audio and in
  \<open>.mp4\<close> for video, and \<open>fileSize\<close> is the size of the file at \<open>filePath\<close>. In
  \<open>src/app.js\<close> the \<open>title\<close> is the \<open>fileName\<close>: the output of the downloader is not read.
  In the play-dl server the \<open>title\<close> is the title that \<open>video_info\<close> reports, or \<open>video\<close>
  when it reports none or an empty one.
\<close>

theorem post_download_record:
  "(app_post_download e rq w = (r, w') \<and> status r = 200 \<longrightarrow>
      (\<exists>d. db w' = db w @ [d]
         \<and> (req_type rq = JStr ''audio'' \<or> req_type rq = JStr ''video'')
         \<and> fileName d = ''video_'' @ show_nat (now e)
                          @ (if req_type rq = JStr ''audio'' then ''.mp3'' else ''.mp4'')
         \<and> fs w' (filePath d) = Some (fileSize d)
         \<and> title d = fileName d))
   \<and> (part0_post_download pe rq0 w0 = (Some r0, w0') \<and> status r0 = 200 \<longrightarrow>
      (\<exists>d vd. video_info pe = Inr vd \<and> db w0' = db w0 @ [d]
         \<and> (req_type rq0 = JStr ''audio'' \<or> req_type rq0 = JStr ''video'')
         \<and> fileName d = safe_title vd @ ''_'' @ show_nat (now pe)
                          @ (if req_type rq0 = JStr ''audio'' then ''.mp3'' else ''.mp4'')
         \<and> fs w0' (filePath d) = Some (fileSize d)
         \<and> title d = (case vd_title vd of
                        None \<Rightarrow> ''video''
                      | Some t \<Rightarrow> if t = [] then ''video'' else t)))"
proof (intro conjI impI)
  assume a: "app_post_download e rq w = (r, w') \<and> status r = 200"
  from app_post_success [of e rq w r w'] a
  show "\<exists>d. db w' = db w @ [d]
         \<and> (req_type rq = JStr ''audio'' \<or> req_type rq = JStr ''video'')
         \<and> fileName d = ''video_'' @ show_nat (now e)
                          @ (if req_type rq = JStr ''audio'' then ''.mp3'' else ''.mp4'')
         \<and> fs w' (filePath d) = Some (fileSize d)
         \<and> title d = fileName d"
    by (auto simp: app_filename_def app_ext_def)
next
  assume a: "part0_post_download pe rq0 w0 = (Some r0, w0') \<and> status r0 = 200"
  from part0_post_success [of pe rq0 w0 r0 w0'] a
  obtain vd n d where *: "video_info pe = Inr vd"
    "fs w0' (part0_filePath pe rq0 vd) = Some n"
    "req_type rq0 = JStr ''audio'' \<or> req_type rq0 = JStr ''video''"
    "db w0' = db w0 @ [d]" "title d = rawTitle vd"
    "fileName d = fileName_of (safe_title vd) (now pe) (req_type rq0)"
    "filePath d = part0_filePath pe rq0 vd" "fileSize d = n"
    by blast
  have "rawTitle vd = (case vd_title vd of None \<Rightarrow> ''video''
                      | Some t \<Rightarrow> if t = [] then ''video'' else t)"
    by (cases "vd_title vd") (simp_all add: rawTitle_def)
  with * show "\<exists>d vd. video_info pe = Inr vd \<and> db w0' = db w0 @ [d]
         \<and> (req_type rq0 = JStr ''audio'' \<or> req_type rq0 = JStr ''video'')
         \<and> fileName d = safe_title vd @ ''_'' @ show_nat (now pe)
                          @ (if req_type rq0 = JStr ''audio'' then ''.mp3'' else ''.mp4'')
         \<and> fs w0' (filePath d) = Some (fileSize d)
         \<and> title d = (case vd_title vd of
                        None \<Rightarrow> ''video''
                      | Some t \<Rightarrow> if t = [] then ''video'' else t)"
    by (auto simp: fileName_of_def fileExt_def)
qed

theorem post_download_record_witness:
  "(app_post_download example_env example_request empty_world
      = (app_success example_env (JStr ''audio'') ''video_1700.mp3'', stored_world)
    \<and> status (app_success example_env (JStr ''audio'') ''video_1700.mp3'') = 200)
   \<and> (\<exists>d. db stored_world = db empty_world @ [d]
          \<and> fileName d = ''video_1700.mp3'' \<and> fileSize d = 1024
          \<and> fs stored_world (filePath d) = Some (fileSize d) \<and> title d = ''video_1700.mp3'')
   \<and> (part0_post_download example_play_env example_request empty_world
         = (Some example_play_response, example_play_world)
       \<and> status example_play_response = 200)
   \<and> (\<exists>d. db example_play_world = db empty_world @ [d]
          \<and> fileName d = ''Test Song_1700.mp3'' \<and> fileSize d = 1024
          \<and> fs example_play_world (filePath d) = Some (fileSize d) \<and> title d = ''Test Song'')"
proof -
  have h1: "app_post_download example_env example_request empty_world
      = (app_success example_env (JStr ''audio'') ''video_1700.mp3'', stored_world)
    \<and> status (app_success example_env (JStr ''audio'') ''video_1700.mp3'') = 200"
    by (simp add: example_app_run app_success_def)
  have h2: "part0_post_download example_play_env example_request empty_world
         = (Some example_play_response, example_play_world)
       \<and> status example_play_response = 200"
    by (simp add: example_part0_run example_play_response_def)
  have c1: "\<exists>d. db stored_world = db empty_world @ [d]
          \<and> fileName d = ''video_1700.mp3'' \<and> fileSize d = 1024
          \<and> fs stored_world (filePath d) = Some (fileSize d) \<and> title d = ''video_1700.mp3''"
    using post_download_record [of example_env example_request empty_world
        "app_success example_env (JStr ''audio'') ''video_1700.mp3''" stored_world
        example_play_env example_request empty_world example_play_response
        example_play_world] h1
    by (simp add: stored_world_def empty_world_def example_doc_def example_path_def)
  have c2: "\<exists>d. db example_play_world = db empty_world @ [d]
          \<and> fileName d = ''Test Song_1700.mp3'' \<and> fileSize d = 1024
          \<and> fs example_play_world (filePath d) = Some (fileSize d) \<and> title d = ''Test Song''"
    using post_download_record [of example_env example_request empty_world
        "app_success example_env (JStr ''audio'') ''video_1700.mp3''" stored_world
        example_play_env example_request empty_world example_play_response
        example_play_world] h2
    by (simp add: example_play_world_def empty_world_def example_play_doc_def)
  from h1 h2 c1 c2 show ?thesis by blast
qed

text \<open>
  The part of C5 that fails, on the scenario of the specification: the stub writes 1024
  bytes and prints the title \<open>Test Song\<close>; \<open>src/app.js\<close> stores a record of 1024 bytes whose
  title is \<open>video_1700.mp3\<close>.
\<close>

theorem post_download_title_counterexample:
  "exec_stdout (app_exec example_env example_request empty_world) = ''Test Song''
   \<and> status (fst (app_post_download example_env example_request empty_world)) = 200
   \<and> map fileSize (db (snd (app_post_download example_env example_request empty_world))) = [1024]
   \<and> map title (db (snd (app_post_download example_env example_request empty_world)))
       = [''video_1700.mp3'']"
proof -
  have "exec_stdout (app_exec example_env example_request empty_world) = ''Test Song''"
    by (simp add: app_exec_def example_env_def stub_ytdlp_def)
  then show ?thesis
    by (simp add: example_app_run app_success_def stored_world_def example_doc_def)
qed








section \<open>Listing, lookup and deletion\<close>

lemma select_minus_hides: "f \<notin> fst ` set (select_minus f kvs)"
  by (auto simp: select_minus_def)

lemma get_downloads_hides_filePath:
  "\<exists>objs. body (part1_get_downloads True w) = JsArr (map JsObj objs)
       \<and> part0_get_downloads True w = Some (part1_get_downloads True w)
       \<and> (\<forall>kvs \<in> set objs. ''filePath'' \<notin> fst ` set kvs)"
proof -
  let ?objs = "map (\<lambda>d. select_minus ''filePath'' (toJSON d)) (sort_newest_first (db w))"
  have "body (part1_get_downloads True w) = JsArr (map JsObj ?objs)"
    by (simp add: part1_get_downloads_def comp_def)
  moreover have "part0_get_downloads True w = Some (part1_get_downloads True w)"
    by (simp add: part1_get_downloads_def part0_get_downloads_def)
  moreover have "\<forall>kvs \<in> set ?objs. ''filePath'' \<notin> fst ` set kvs"
    using select_minus_hides by auto
  ultimately show ?thesis by blast
qed

lemma findById_None_iff: "findById i ds = None \<longleftrightarrow> i \<notin> doc_id ` set ds"
  by (induction ds) (auto simp: findById_def)

lemma findByIdAndDelete_ids:
  "distinct (map doc_id ds) \<Longrightarrow> doc_id ` set (findByIdAndDelete i ds) = doc_id ` set ds - {i}"
proof (induction ds)
  case Nil
  then show ?case by simp
next
  case (Cons d ds)
  show ?case
  proof (cases "doc_id d = i")
    case True
    with Cons.prems have "i \<notin> doc_id ` set ds" by auto
    with True show ?thesis by auto
  next
    case False
    with Cons show ?thesis by auto
  qed
qed

lemma findById_after_delete:
  "distinct (map doc_id ds) \<Longrightarrow> findById i (findByIdAndDelete i ds) = None"
  by (simp add: findById_None_iff findByIdAndDelete_ids)

lemma findByIdAndDelete_distinct:
  "distinct (map doc_id ds) \<Longrightarrow> distinct (map doc_id (findByIdAndDelete i ds))"
  by (induction ds) (auto simp: findByIdAndDelete_ids)

lemma save_distinct:
  "distinct (map doc_id (db w)) \<Longrightarrow> save valid ok d w = Some w' \<Longrightarrow> distinct (map doc_id (db w'))"
  by (auto simp: save_def split: if_splits)

lemma delete_body_success:
  assumes "delete_body e i w = Inr (r, w')" "r \<noteq> not_found"
  shows "\<exists>d. findById i (db w) = Some d \<and> r = delete_success
           \<and> fs w' = (fs w)(filePath d := None)
           \<and> db w' = findByIdAndDelete i (db w) \<and> execLog w' = execLog w"
  using assms
  by (auto simp: delete_body_def Let_def split: if_splits option.splits)

lemma delete_body_ok:
  assumes "findById_ok e" "findById i (db w) = Some d"
    "fs w (filePath d) = None \<or> unlink_ok e" "findByIdAndDelete_ok e"
  shows "\<exists>w'. delete_body e i w = Inr (delete_success, w')
           \<and> fs w' = (fs w)(filePath d := None)
           \<and> db w' = findByIdAndDelete i (db w)"
  using assms by (auto simp: delete_body_def Let_def)

lemma delete_body_not_found:
  assumes "findById_ok e" "findById i (db w) = None"
  shows "delete_body e i w = Inr (not_found, w)"
  using assms by (simp add: delete_body_def)

lemma delete_body_record_removal_fails:
  assumes "findById_ok e" "findById i (db w) = Some d" "fs w (filePath d) = None \<or> unlink_ok e"
    "\<not> findByIdAndDelete_ok e"
  shows "\<exists>w'. delete_body e i w = Inl w' \<and> fs w' = (fs w)(filePath d := None) \<and> db w' = db w"
  using assms by (auto simp: delete_body_def Let_def)

lemma delete_body_file_absent:
  assumes "findById_ok e" "findByIdAndDelete_ok e" "findById i (db w) = Some d"
    "fs w (filePath d) = None"
  shows "delete_body e i w = Inr (delete_success, w\<lparr>db := findByIdAndDelete i (db w)\<rparr>)"
  using assms by (simp add: delete_body_def)

lemma delete_body_db_changed:
  assumes "findById i (db w) = Some d"
  shows "(case delete_body e i w of
            Inl w' \<Rightarrow> db w' = db w
          | Inr (r, w') \<Rightarrow> r = delete_success \<and> fs w' (filePath d) = None)"
  using assms by (auto simp: delete_body_def Let_def)

lemma not_found_neq_success: "not_found \<noteq> delete_success"
  by (simp add: not_found_def delete_success_def error_response_def)

lemmas delete_defs =
  part0_delete_download_def part1_delete_download_def delete_body_def findById_def
  stored_world_def example_doc_def example_path_def all_ok_def record_removal_fails_def
  lookup_fails_def Let_def

text \<open>
  C1 requires that no response carries the stored \<open>filePath\<close>. The two earlier servers
  project it away in \<open>GET /downloads\<close> (\<open>.select('-filePath')\<close>, with the comment that file
  paths are not sent for security), but \<open>GET /download/:id\<close> serialises the whole document,
  and so does \<open>GET /downloads-list\<close> of \<open>src/app.js\<close>: for the stored example record each of
  them answers with the local path of the file.
\<close>

theorem get_download_exposes_filePath:
  "findById ''66c9e1a0f1a2b3c4d5e6f701'' (db stored_world) = Some example_doc
   \<and> part1_get_download True ''66c9e1a0f1a2b3c4d5e6f701'' stored_world
       = \<lparr>status = 200, body = JsObj (toJSON example_doc)\<rparr>
   \<and> part0_get_download True ''66c9e1a0f1a2b3c4d5e6f701'' stored_world
       = Some \<lparr>status = 200, body = JsObj (toJSON example_doc)\<rparr>
   \<and> app_get_downloads_list True stored_world
       = \<lparr>status = 200, body = JsArr [JsObj (toJSON example_doc)]\<rparr>
   \<and> map_of (toJSON example_doc) ''filePath'' = Some (JsStr ''/srv/app/downloads/video_1700.mp3'')"
  by (simp add: part1_get_download_def part0_get_download_def app_get_downloads_list_def
      findById_def stored_world_def example_doc_def toJSON_def sort_newest_first_def
      example_path_def)

text \<open>
  C7, as the handler has it. Two calls of \<open>DELETE /download/:id\<close> in sequence for the id
  of a record: when no operation of the first call fails (the lookup resolves, the file is
  absent or its unlink succeeds, the removal of the record resolves) and the lookup of the
  second resolves, the first answers Success, with the file and the record gone, and the
  second answers NotFound and changes nothing (the collection holds each \<open>_id\<close> once). A
  delete for an id without record, whose lookup resolves, answers NotFound and leaves the
  state, the download directory included, as it was. A delete whose file is already
  absent answers Success and removes the record.
\<close>

theorem delete_download_twice:
  "(distinct (map doc_id (db w)) \<and> findById i (db w) = Some d \<and> findById_ok e1
      \<and> (fs w (filePath d) = None \<or> unlink_ok e1) \<and> findByIdAndDelete_ok e1
      \<and> findById_ok e2 \<longrightarrow>
      fst (part0_delete_download e1 i w) = Some delete_success
      \<and> fs (snd (part0_delete_download e1 i w)) = (fs w)(filePath d := None)
      \<and> db (snd (part0_delete_download e1 i w)) = findByIdAndDelete i (db w)
      \<and> part0_delete_download e2 i (snd (part0_delete_download e1 i w))
          = (Some not_found, snd (part0_delete_download e1 i w)))
   \<and> (findById_ok e \<and> findById j (db v) = None \<longrightarrow>
      part0_delete_download e j v = (Some not_found, v))
   \<and> (findById_ok e3 \<and> findByIdAndDelete_ok e3 \<and> findById k (db u) = Some d3
      \<and> fs u (filePath d3) = None \<longrightarrow>
      part0_delete_download e3 k u = (Some delete_success, u\<lparr>db := findByIdAndDelete k (db u)\<rparr>))"
proof (intro conjI impI)
  assume a: "distinct (map doc_id (db w)) \<and> findById i (db w) = Some d \<and> findById_ok e1
      \<and> (fs w (filePath d) = None \<or> unlink_ok e1) \<and> findByIdAndDelete_ok e1
      \<and> findById_ok e2"
  then obtain w1 where b: "delete_body e1 i w = Inr (delete_success, w1)"
    "fs w1 = (fs w)(filePath d := None)" "db w1 = findByIdAndDelete i (db w)"
    using delete_body_ok [of e1 i w d] by blast
  have s: "snd (part0_delete_download e1 i w) = w1"
    using b(1) by (simp add: part0_delete_download_def)
  show "fst (part0_delete_download e1 i w) = Some delete_success"
    using b(1) by (simp add: part0_delete_download_def)
  show "fs (snd (part0_delete_download e1 i w)) = (fs w)(filePath d := None)"
    using b(2) by (simp only: s)
  show "db (snd (part0_delete_download e1 i w)) = findByIdAndDelete i (db w)"
    using b(3) by (simp only: s)
  have "findById i (db w1) = None"
    using a b(3) by (simp add: findById_after_delete)
  with a have "delete_body e2 i w1 = Inr (not_found, w1)"
    by (simp add: delete_body_not_found)
  then show "part0_delete_download e2 i (snd (part0_delete_download e1 i w))
          = (Some not_found, snd (part0_delete_download e1 i w))"
    unfolding s by (simp add: part0_delete_download_def)
next
  assume "findById_ok e \<and> findById j (db v) = None"
  then show "part0_delete_download e j v = (Some not_found, v)"
    by (simp add: part0_delete_download_def delete_body_not_found)
next
  assume "findById_ok e3 \<and> findByIdAndDelete_ok e3 \<and> findById k (db u) = Some d3
      \<and> fs u (filePath d3) = None"
  then show "part0_delete_download e3 k u
      = (Some delete_success, u\<lparr>db := findByIdAndDelete k (db u)\<rparr>)"
    by (simp add: part0_delete_download_def delete_body_file_absent)
qed

theorem delete_download_twice_witness:
  "(distinct (map doc_id (db stored_world))
      \<and> findById ''66c9e1a0f1a2b3c4d5e6f701'' (db stored_world) = Some example_doc
      \<and> findById_ok all_ok
      \<and> (fs stored_world (filePath example_doc) = None \<or> unlink_ok all_ok)
      \<and> findByIdAndDelete_ok all_ok \<and> findById_ok all_ok)
   \<and> (fst (part0_delete_download all_ok ''66c9e1a0f1a2b3c4d5e6f701'' stored_world) = Some delete_success
      \<and> fs (snd (part0_delete_download all_ok ''66c9e1a0f1a2b3c4d5e6f701'' stored_world))
          = (fs stored_world)(filePath example_doc := None)
      \<and> db (snd (part0_delete_download all_ok ''66c9e1a0f1a2b3c4d5e6f701'' stored_world))
          = findByIdAndDelete ''66c9e1a0f1a2b3c4d5e6f701'' (db stored_world)
      \<and> part0_delete_download all_ok ''66c9e1a0f1a2b3c4d5e6f701'' (snd (part0_delete_download all_ok ''66c9e1a0f1a2b3c4d5e6f701'' stored_world))
          = (Some not_found, snd (part0_delete_download all_ok ''66c9e1a0f1a2b3c4d5e6f701'' stored_world)))
   \<and> (findById_ok all_ok \<and> findById ''66c9e1a0f1a2b3c4d5e6f7ff'' (db stored_world) = None)
   \<and> (part0_delete_download all_ok ''66c9e1a0f1a2b3c4d5e6f7ff'' stored_world = (Some not_found, stored_world))
   \<and> (findById_ok all_ok \<and> findByIdAndDelete_ok all_ok
      \<and> findById ''66c9e1a0f1a2b3c4d5e6f701'' (db (stored_world\<lparr>fs := Map.empty\<rparr>)) = Some example_doc
      \<and> fs (stored_world\<lparr>fs := Map.empty\<rparr>) (filePath example_doc) = None)
   \<and> (part0_delete_download all_ok ''66c9e1a0f1a2b3c4d5e6f701'' (stored_world\<lparr>fs := Map.empty\<rparr>)
        = (Some delete_success,
           stored_world\<lparr>fs := Map.empty,
             db := findByIdAndDelete ''66c9e1a0f1a2b3c4d5e6f701'' (db (stored_world\<lparr>fs := Map.empty\<rparr>))\<rparr>))"
proof -
  note t = delete_download_twice [of stored_world "''66c9e1a0f1a2b3c4d5e6f701''" example_doc all_ok all_ok all_ok
      "''66c9e1a0f1a2b3c4d5e6f7ff''" stored_world all_ok "''66c9e1a0f1a2b3c4d5e6f701''" "stored_world\<lparr>fs := Map.empty\<rparr>" example_doc]
  have h1: "distinct (map doc_id (db stored_world))
      \<and> findById ''66c9e1a0f1a2b3c4d5e6f701'' (db stored_world) = Some example_doc
      \<and> findById_ok all_ok
      \<and> (fs stored_world (filePath example_doc) = None \<or> unlink_ok all_ok)
      \<and> findByIdAndDelete_ok all_ok \<and> findById_ok all_ok"
    by (simp add: delete_defs)
  have h2: "findById_ok all_ok \<and> findById ''66c9e1a0f1a2b3c4d5e6f7ff'' (db stored_world) = None"
    by (simp add: delete_defs)
  have h3: "findById_ok all_ok \<and> findByIdAndDelete_ok all_ok
      \<and> findById ''66c9e1a0f1a2b3c4d5e6f701'' (db (stored_world\<lparr>fs := Map.empty\<rparr>)) = Some example_doc
      \<and> fs (stored_world\<lparr>fs := Map.empty\<rparr>) (filePath example_doc) = None"
    by (simp add: delete_defs)
  from conjunct1 [OF t] h1 have c1: "fst (part0_delete_download all_ok ''66c9e1a0f1a2b3c4d5e6f701'' stored_world) = Some delete_success
      \<and> fs (snd (part0_delete_download all_ok ''66c9e1a0f1a2b3c4d5e6f701'' stored_world))
          = (fs stored_world)(filePath example_doc := None)
      \<and> db (snd (part0_delete_download all_ok ''66c9e1a0f1a2b3c4d5e6f701'' stored_world))
          = findByIdAndDelete ''66c9e1a0f1a2b3c4d5e6f701'' (db stored_world)
      \<and> part0_delete_download all_ok ''66c9e1a0f1a2b3c4d5e6f701'' (snd (part0_delete_download all_ok ''66c9e1a0f1a2b3c4d5e6f701'' stored_world))
          = (Some not_found, snd (part0_delete_download all_ok ''66c9e1a0f1a2b3c4d5e6f701'' stored_world))"
    by (rule mp)
  from conjunct1 [OF conjunct2 [OF t]] h2 have c2: "part0_delete_download all_ok ''66c9e1a0f1a2b3c4d5e6f7ff'' stored_world = (Some not_found, stored_world)"
    by (rule mp)
  from conjunct2 [OF conjunct2 [OF t]] h3 have c3: "part0_delete_download all_ok ''66c9e1a0f1a2b3c4d5e6f701'' (stored_world\<lparr>fs := Map.empty\<rparr>)
        = (Some delete_success,
           stored_world\<lparr>fs := Map.empty,
             db := findByIdAndDelete ''66c9e1a0f1a2b3c4d5e6f701'' (db (stored_world\<lparr>fs := Map.empty\<rparr>))\<rparr>)"
    by (rule mp)
  show ?thesis
    by (rule conjI [OF h1 conjI [OF c1 conjI [OF h2 conjI [OF c2 conjI [OF h3 c3]]]]])
qed

text \<open>
  The part of C7 that fails: after a first call that removed the file and failed to remove
  the record (no response in the play-dl server, \<open>Delete failed\<close> in the ytdl-core server),
  the record is still there, and the second call answers Success, not NotFound.
\<close>

theorem delete_download_after_partial_counterexample:
  "findById ''66c9e1a0f1a2b3c4d5e6f701'' (db stored_world) = Some example_doc
   \<and> fst (part0_delete_download record_removal_fails ''66c9e1a0f1a2b3c4d5e6f701'' stored_world) = None
   \<and> fst (part1_delete_download record_removal_fails ''66c9e1a0f1a2b3c4d5e6f701'' stored_world) = delete_failed
   \<and> fs (snd (part0_delete_download record_removal_fails ''66c9e1a0f1a2b3c4d5e6f701'' stored_world)) example_path = None
   \<and> db (snd (part0_delete_download record_removal_fails ''66c9e1a0f1a2b3c4d5e6f701'' stored_world)) = [example_doc]
   \<and> fst (part0_delete_download all_ok ''66c9e1a0f1a2b3c4d5e6f701''
            (snd (part0_delete_download record_removal_fails ''66c9e1a0f1a2b3c4d5e6f701'' stored_world)))
       = Some delete_success
   \<and> fst (part1_delete_download all_ok ''66c9e1a0f1a2b3c4d5e6f701''
            (snd (part1_delete_download record_removal_fails ''66c9e1a0f1a2b3c4d5e6f701'' stored_world)))
       = delete_success
   \<and> delete_success \<noteq> not_found"
  by (simp add: delete_defs delete_success_def not_found_def error_response_def)

text \<open>
  C8, as the handler of the ytdl-core server has it. When the file is removed and the
  removal of the record fails, the response is the general 500 \<open>Delete failed\<close>; the file
  is gone and the record remains. The opposite outcome does not arise: whenever the
  collection changed, the response is Success and the file of the record is absent.
\<close>

theorem delete_download_partial:
  "(findById_ok e \<and> findById i (db w) = Some d \<and> fs w (filePath d) \<noteq> None \<and> unlink_ok e
      \<and> \<not> findByIdAndDelete_ok e \<longrightarrow>
      fst (part1_delete_download e i w) = delete_failed
      \<and> status delete_failed = 500
      \<and> fs (snd (part1_delete_download e i w)) (filePath d) = None
      \<and> db (snd (part1_delete_download e i w)) = db w)
   \<and> (findById j (db v) = Some d0 \<and> db (snd (part1_delete_download e0 j v)) \<noteq> db v \<longrightarrow>
      fst (part1_delete_download e0 j v) = delete_success
      \<and> fs (snd (part1_delete_download e0 j v)) (filePath d0) = None)"
proof (intro conjI impI)
  assume a: "findById_ok e \<and> findById i (db w) = Some d \<and> fs w (filePath d) \<noteq> None
      \<and> unlink_ok e \<and> \<not> findByIdAndDelete_ok e"
  then obtain w' where w': "delete_body e i w = Inl w'" "fs w' = (fs w)(filePath d := None)"
    "db w' = db w"
    using delete_body_record_removal_fails [of e i w d] by blast
  then show "fst (part1_delete_download e i w) = delete_failed"
    "fs (snd (part1_delete_download e i w)) (filePath d) = None"
    "db (snd (part1_delete_download e i w)) = db w"
    by (simp_all add: part1_delete_download_def)
  show "status delete_failed = 500"
    by (simp add: delete_failed_def error_response_def)
next
  assume a: "findById j (db v) = Some d0 \<and> db (snd (part1_delete_download e0 j v)) \<noteq> db v"
  then have f: "findById j (db v) = Some d0" by simp
  from a delete_body_db_changed [OF f, of e0]
  show "fst (part1_delete_download e0 j v) = delete_success"
    "fs (snd (part1_delete_download e0 j v)) (filePath d0) = None"
    by (auto simp: part1_delete_download_def split: sum.splits)
qed

theorem delete_download_partial_witness:
  "(findById_ok record_removal_fails \<and> findById ''66c9e1a0f1a2b3c4d5e6f701'' (db stored_world) = Some example_doc
      \<and> fs stored_world (filePath example_doc) \<noteq> None \<and> unlink_ok record_removal_fails
      \<and> \<not> findByIdAndDelete_ok record_removal_fails)
   \<and> (fst (part1_delete_download record_removal_fails ''66c9e1a0f1a2b3c4d5e6f701'' stored_world) = delete_failed
      \<and> status delete_failed = 500
      \<and> fs (snd (part1_delete_download record_removal_fails ''66c9e1a0f1a2b3c4d5e6f701'' stored_world))
           (filePath example_doc) = None
      \<and> db (snd (part1_delete_download record_removal_fails ''66c9e1a0f1a2b3c4d5e6f701'' stored_world))
          = db stored_world)
   \<and> (findById ''66c9e1a0f1a2b3c4d5e6f701'' (db stored_world) = Some example_doc
      \<and> db (snd (part1_delete_download all_ok ''66c9e1a0f1a2b3c4d5e6f701'' stored_world)) \<noteq> db stored_world)
   \<and> (fst (part1_delete_download all_ok ''66c9e1a0f1a2b3c4d5e6f701'' stored_world) = delete_success
      \<and> fs (snd (part1_delete_download all_ok ''66c9e1a0f1a2b3c4d5e6f701'' stored_world)) (filePath example_doc) = None)"
proof -
  note t = delete_download_partial [of record_removal_fails "''66c9e1a0f1a2b3c4d5e6f701''" stored_world example_doc
      "''66c9e1a0f1a2b3c4d5e6f701''" stored_world example_doc all_ok]
  have h1: "findById_ok record_removal_fails \<and> findById ''66c9e1a0f1a2b3c4d5e6f701'' (db stored_world) = Some example_doc
      \<and> fs stored_world (filePath example_doc) \<noteq> None \<and> unlink_ok record_removal_fails
      \<and> \<not> findByIdAndDelete_ok record_removal_fails"
    by (simp add: delete_defs)
  have h2: "findById ''66c9e1a0f1a2b3c4d5e6f701'' (db stored_world) = Some example_doc
      \<and> db (snd (part1_delete_download all_ok ''66c9e1a0f1a2b3c4d5e6f701'' stored_world)) \<noteq> db stored_world"
    by (simp add: delete_defs)
  from conjunct1 [OF t] h1 have c1: "fst (part1_delete_download record_removal_fails ''66c9e1a0f1a2b3c4d5e6f701'' stored_world) = delete_failed
      \<and> status delete_failed = 500
      \<and> fs (snd (part1_delete_download record_removal_fails ''66c9e1a0f1a2b3c4d5e6f701'' stored_world))
           (filePath example_doc) = None
      \<and> db (snd (part1_delete_download record_removal_fails ''66c9e1a0f1a2b3c4d5e6f701'' stored_world))
          = db stored_world"
    by (rule mp)
  from conjunct2 [OF t] h2 have c2: "fst (part1_delete_download all_ok ''66c9e1a0f1a2b3c4d5e6f701'' stored_world) = delete_success
      \<and> fs (snd (part1_delete_download all_ok ''66c9e1a0f1a2b3c4d5e6f701'' stored_world)) (filePath example_doc) = None"
    by (rule mp)
  show ?thesis
    by (rule conjI [OF h1 conjI [OF c1 conjI [OF h2 c2]]])
qed

text \<open>
  The part of C8 that fails: the response to the partial deletion is not an outcome of its
  own. It is the response of a delete whose lookup failed and that removed nothing.
\<close>

theorem delete_download_partial_counterexample:
  "fs stored_world example_path = Some 1024
   \<and> fs (snd (part1_delete_download record_removal_fails ''66c9e1a0f1a2b3c4d5e6f701'' stored_world)) example_path = None
   \<and> db (snd (part1_delete_download record_removal_fails ''66c9e1a0f1a2b3c4d5e6f701'' stored_world)) = db stored_world
   \<and> snd (part1_delete_download lookup_fails ''66c9e1a0f1a2b3c4d5e6f701'' stored_world) = stored_world
   \<and> fst (part1_delete_download record_removal_fails ''66c9e1a0f1a2b3c4d5e6f701'' stored_world)
       = fst (part1_delete_download lookup_fails ''66c9e1a0f1a2b3c4d5e6f701'' stored_world)"
  by (simp add: delete_defs)

end
